theory Spec2Isabelle
  imports Complex_Main
begin

section \<open>Python errors and results\<close>

text \<open>
  Every raise of the source is a value: a function that can raise returns
  \<open>error + 'a\<close>, with \<open>Inl\<close> the exception. \<open>RuntimeError\<close> carries the
  message the source formats.
\<close>

datatype error =
    IndexError
  | KeyError
  | TypeError
  | AssertionError
  | RuntimeError string

fun map_result :: "('a \<Rightarrow> error + 'b) \<Rightarrow> 'a list \<Rightarrow> error + 'b list" where
  "map_result f [] = Inr []"
| "map_result f (x # xs) =
     (case f x of
        Inl e \<Rightarrow> Inl e
      | Inr y \<Rightarrow> (case map_result f xs of Inl e \<Rightarrow> Inl e | Inr ys \<Rightarrow> Inr (y # ys)))"

definition lookup :: "('k \<rightharpoonup> 'v) \<Rightarrow> 'k \<Rightarrow> error + 'v" where
  "lookup m k = (case m k of None \<Rightarrow> Inl KeyError | Some v \<Rightarrow> Inr v)"

text \<open>
  A dict comprehension \<open>{k: v for k, v in pairs}\<close>: a later pair with the same
  key replaces an earlier one.
\<close>

definition dict_comp :: "('k \<times> 'v) list \<Rightarrow> ('k \<rightharpoonup> 'v)" where
  "dict_comp kvs = map_of (rev kvs)"

section \<open>Params\<close>

text \<open>
  A sub-generator's \<open>get\<close> returns a pair of the chosen value and the direction
  that led to it. The vectorize length and the unroll steps are integers with an
  integer direction; a split is a list of factors with a list direction. The
  three scalar fields are \<open>None\<close> in \<open>empty_params\<close>.
\<close>

type_synonym scalar_choice = "int \<times> int"
type_synonym split_choice = "int list \<times> int list"

record Params =
  vectorize :: "scalar_choice option"
  spatial_factors :: "split_choice list"
  reduce_factors :: "split_choice list"
  last_factors :: "split_choice list"
  output_unroll_step :: "scalar_choice option"
  last_unroll_step :: "scalar_choice option"

definition empty_params :: Params where
  "empty_params =
     \<lparr>vectorize = None, spatial_factors = [], reduce_factors = [],
      last_factors = [], output_unroll_step = None, last_unroll_step = None\<rparr>"

text \<open>
  The dict of \<open>to_json\<close> holds the field values themselves under six string
  keys. The values have two shapes, one per kind of field.
\<close>

datatype json_value =
    JChoice "scalar_choice option"
  | JSplits "split_choice list"

type_synonym json_obj = "string \<rightharpoonup> json_value"

definition to_json :: "Params \<Rightarrow> json_obj" where
  "to_json self =
     [''vectorize'' \<mapsto> JChoice (vectorize self),
      ''spatial_factors'' \<mapsto> JSplits (spatial_factors self),
      ''reduce_factors'' \<mapsto> JSplits (reduce_factors self),
      ''last_factors'' \<mapsto> JSplits (last_factors self),
      ''output_unroll_step'' \<mapsto> JChoice (output_unroll_step self),
      ''last_unroll_step'' \<mapsto> JChoice (last_unroll_step self)]"

text \<open>
  \<open>obj[key]\<close> raises KeyError on a missing key. Python stores whatever value it
  finds; the typed fields of the model can hold only a value of their own shape,
  and the model reports the other shape as TypeError.
\<close>

definition obj_choice :: "json_obj \<Rightarrow> string \<Rightarrow> error + scalar_choice option" where
  "obj_choice obj k =
     (case obj k of
        None \<Rightarrow> Inl KeyError
      | Some (JChoice c) \<Rightarrow> Inr c
      | Some (JSplits _) \<Rightarrow> Inl TypeError)"

definition obj_splits :: "json_obj \<Rightarrow> string \<Rightarrow> error + split_choice list" where
  "obj_splits obj k =
     (case obj k of
        None \<Rightarrow> Inl KeyError
      | Some (JSplits s) \<Rightarrow> Inr s
      | Some (JChoice _) \<Rightarrow> Inl TypeError)"

text \<open>
  \<open>from_json\<close> assigns the six fields of \<open>self\<close> in the order of the source; an
  exception leaves the method at the first failing lookup.
\<close>

definition from_json :: "Params \<Rightarrow> json_obj \<Rightarrow> error + Params" where
  "from_json self obj =
     (case obj_choice obj ''vectorize'' of Inl e \<Rightarrow> Inl e | Inr v \<Rightarrow>
      case obj_splits obj ''spatial_factors'' of Inl e \<Rightarrow> Inl e | Inr sf \<Rightarrow>
      case obj_splits obj ''reduce_factors'' of Inl e \<Rightarrow> Inl e | Inr rf \<Rightarrow>
      case obj_splits obj ''last_factors'' of Inl e \<Rightarrow> Inl e | Inr lf \<Rightarrow>
      case obj_choice obj ''output_unroll_step'' of Inl e \<Rightarrow> Inl e | Inr ou \<Rightarrow>
      case obj_choice obj ''last_unroll_step'' of Inl e \<Rightarrow> Inl e | Inr lu \<Rightarrow>
        Inr (self\<lparr>vectorize := v, spatial_factors := sf, reduce_factors := rf,
                  last_factors := lf, output_unroll_step := ou,
                  last_unroll_step := lu\<rparr>))"

text \<open>
  \<open>CUDAScheduleGenerator.record_from_json\<close> builds a fresh record with
  \<open>record_cls = Params\<close> from the same six keys.
\<close>

definition record_from_json :: "json_obj \<Rightarrow> error + Params" where
  "record_from_json obj =
     (case obj_choice obj ''vectorize'' of Inl e \<Rightarrow> Inl e | Inr v \<Rightarrow>
      case obj_splits obj ''spatial_factors'' of Inl e \<Rightarrow> Inl e | Inr sf \<Rightarrow>
      case obj_splits obj ''reduce_factors'' of Inl e \<Rightarrow> Inl e | Inr rf \<Rightarrow>
      case obj_splits obj ''last_factors'' of Inl e \<Rightarrow> Inl e | Inr lf \<Rightarrow>
      case obj_choice obj ''output_unroll_step'' of Inl e \<Rightarrow> Inl e | Inr ou \<Rightarrow>
      case obj_choice obj ''last_unroll_step'' of Inl e \<Rightarrow> Inl e | Inr lu \<Rightarrow>
        Inr \<lparr>vectorize = v, spatial_factors = sf, reduce_factors = rf,
             last_factors = lf, output_unroll_step = ou, last_unroll_step = lu\<rparr>)"

section \<open>Parameter generators\<close>

text \<open>
  The base class \<open>QLearningParamGenerator\<close> comes from the search module, the
  helpers \<open>any_factor_split\<close>, \<open>remap_factors\<close>, \<open>get_directions\<close> and
  \<open>get_factor_lst\<close> from \<open>utils\<close>, \<open>get_vector_length\<close> from \<open>target\<close>;
  this module only calls them. The constructors
  below take what these helpers return as arguments: the choices, the dict
  \<open>factor_map\<close> (its items in insertion order), \<open>dim\<close>-dependent directions
  and \<open>sum_val\<close> for a split, the list of lengths for the vectorize length.
\<close>

record SplitFactorGenerator =
  sf_choices :: "int list list"
  factor_map :: "(int \<times> int) list"
  sum_val :: int
  sf_directions :: "int list list"
  sf_reverse_map :: "int \<rightharpoonup> int"

definition SplitFactorGenerator_init ::
  "int list list \<Rightarrow> (int \<times> int) list \<Rightarrow> int \<Rightarrow> int list list \<Rightarrow> SplitFactorGenerator" where
  "SplitFactorGenerator_init chs fm sv dirs =
     \<lparr>sf_choices = chs, factor_map = fm, sum_val = sv, sf_directions = dirs,
      sf_reverse_map = dict_comp (map (\<lambda>(x, y). (y, x)) fm)\<rparr>"

text \<open>
  \<open>move_towards_direction\<close> enumerates \<open>d\<close> and reads \<open>init[i]\<close>: IndexError
  when \<open>init\<close> is shorter than \<open>d\<close>.
\<close>

fun sf_move_loop :: "int list \<Rightarrow> int list \<Rightarrow> error + int list" where
  "sf_move_loop init [] = Inr []"
| "sf_move_loop [] (v # d) = Inl IndexError"
| "sf_move_loop (a # init) (v # d) =
     (case sf_move_loop init d of Inl e \<Rightarrow> Inl e | Inr r \<Rightarrow> Inr ((a + v) # r))"

definition sf_move_towards_direction ::
  "SplitFactorGenerator \<Rightarrow> int list \<Rightarrow> int list \<Rightarrow> error + int list" where
  "sf_move_towards_direction self init d =
     (case sf_move_loop init d of
        Inl e \<Rightarrow> Inl e
      | Inr r \<Rightarrow> Inr (r @ [sum_val self - sum_list r]))"

definition sf_map_to_hidden :: "SplitFactorGenerator \<Rightarrow> int list \<Rightarrow> error + int list" where
  "sf_map_to_hidden self factors = map_result (lookup (sf_reverse_map self)) factors"

definition sf_map_from_hidden :: "SplitFactorGenerator \<Rightarrow> int list \<Rightarrow> error + int list" where
  "sf_map_from_hidden self init = map_result (lookup (map_of (factor_map self))) init"

definition sf_valid :: "SplitFactorGenerator \<Rightarrow> int list \<Rightarrow> bool" where
  "sf_valid self init = list_all (\<lambda>v. 0 \<le> v \<and> v \<le> sum_val self) init"

record VectorizeLengthGenerator =
  lengths :: "int list"
  vl_choices :: "int list"
  vl_length_map :: "int \<rightharpoonup> int"
  vl_reverse_map :: "int \<rightharpoonup> int"
  vl_directions :: "int list"

definition VectorizeLengthGenerator_init :: "int list \<Rightarrow> VectorizeLengthGenerator" where
  "VectorizeLengthGenerator_init ls =
     (let chs = map int [0 ..< length ls] in
      \<lparr>lengths = ls, vl_choices = chs,
       vl_length_map = dict_comp (zip chs ls),
       vl_reverse_map = dict_comp (zip ls chs),
       vl_directions = [0, 1, -1]\<rparr>)"

definition vl_move_towards_direction :: "VectorizeLengthGenerator \<Rightarrow> int \<Rightarrow> int \<Rightarrow> int" where
  "vl_move_towards_direction self init d = init + d"

definition vl_valid :: "VectorizeLengthGenerator \<Rightarrow> int \<Rightarrow> bool" where
  "vl_valid self init = (0 \<le> init \<and> init < int (length (lengths self)))"

definition vl_map_to_hidden :: "VectorizeLengthGenerator \<Rightarrow> int \<Rightarrow> error + int" where
  "vl_map_to_hidden self l = lookup (vl_reverse_map self) l"

definition vl_map_from_hidden :: "VectorizeLengthGenerator \<Rightarrow> int \<Rightarrow> error + int" where
  "vl_map_from_hidden self init = lookup (vl_length_map self) init"

record UnrollStepGenerator =
  steps :: "int list"
  us_choices :: "int list"
  us_length_map :: "int \<rightharpoonup> int"
  us_reverse_map :: "int \<rightharpoonup> int"
  us_directions :: "int list"

definition UnrollStepGenerator_init :: "int list \<Rightarrow> UnrollStepGenerator" where
  "UnrollStepGenerator_init ss =
     (let chs = map int [0 ..< length ss] in
      \<lparr>steps = ss, us_choices = chs,
       us_length_map = dict_comp (zip chs ss),
       us_reverse_map = dict_comp (zip ss chs),
       us_directions = [0, 1, -1]\<rparr>)"

definition us_move_towards_direction :: "UnrollStepGenerator \<Rightarrow> int \<Rightarrow> int \<Rightarrow> int" where
  "us_move_towards_direction self init d = init + d"

definition us_valid :: "UnrollStepGenerator \<Rightarrow> int \<Rightarrow> bool" where
  "us_valid self init = (0 \<le> init \<and> init < int (length (steps self)))"

definition us_map_to_hidden :: "UnrollStepGenerator \<Rightarrow> int \<Rightarrow> error + int" where
  "us_map_to_hidden self l = lookup (us_reverse_map self) l"

definition us_map_from_hidden :: "UnrollStepGenerator \<Rightarrow> int \<Rightarrow> error + int" where
  "us_map_from_hidden self init = lookup (us_length_map self) init"

section \<open>The schedule generator\<close>

text \<open>
  An archive entry pairs a record with the value fed back for it. The class
  \<open>Entry\<close> comes from the search module; \<open>heapq\<close> compares entries with
  their \<open>__lt__\<close>, which the functions below take as the argument \<open>lt\<close>.
\<close>

record Entry =
  entry_record :: Params
  entry_value :: real

definition index :: "'a list \<Rightarrow> nat \<Rightarrow> error + 'a" where
  "index xs i = (if i < length xs then Inr (xs ! i) else Inl IndexError)"

text \<open>
  \<open>heapq.nlargest(n, xs)\<close> is \<open>sorted(xs, reverse=True)[:n]\<close>: the greatest
  first, and entries that compare equal in the order they have in \<open>xs\<close>.
\<close>

fun insert_desc :: "('a \<Rightarrow> 'a \<Rightarrow> bool) \<Rightarrow> 'a \<Rightarrow> 'a list \<Rightarrow> 'a list" where
  "insert_desc lt x [] = [x]"
| "insert_desc lt x (y # ys) =
     (if lt x y then y # insert_desc lt x ys else x # y # ys)"

definition nlargest :: "('a \<Rightarrow> 'a \<Rightarrow> bool) \<Rightarrow> nat \<Rightarrow> 'a list \<Rightarrow> 'a list" where
  "nlargest lt n xs = take n (foldr (insert_desc lt) xs [])"

record CUDAScheduleGenerator =
  eps :: real
  n_spatial_splits :: nat
  n_reduce_splits :: nat
  n_last_splits :: nat
  entries :: "Entry list"
  visited :: "string set"

text \<open>
  \<open>np.exp((x - best) / 2 * (best + 1e-5))\<close>: the division binds before the
  product.
\<close>

definition calculate_p :: "real \<Rightarrow> real \<Rightarrow> real" where
  "calculate_p x best = exp ((x - best) / 2 * (best + 1 / 100000))"

text \<open>
  The random numbers are inputs. \<open>greedy\<close> compares one draw of
  \<open>np.random.random()\<close> with \<open>eps\<close>.
\<close>

definition greedy :: "CUDAScheduleGenerator \<Rightarrow> real \<Rightarrow> bool" where
  "greedy self coin = (coin > eps self)"

text \<open>
  \<open>valid\<close> multiplies \<open>factors[0][1]\<close> over the spatial factors, then reads
  \<open>last_factors[0][0][1]\<close>. A read past the end of a list is IndexError; the
  first test returns before \<open>last_factors\<close> is read.
\<close>

fun spatial_warp_num :: "split_choice list \<Rightarrow> int \<Rightarrow> error + int" where
  "spatial_warp_num [] warp_num = Inr warp_num"
| "spatial_warp_num (factors # rest) warp_num =
     (case index (fst factors) 1 of
        Inl e \<Rightarrow> Inl e
      | Inr f \<Rightarrow> spatial_warp_num rest (warp_num * f))"

definition valid :: "Params \<Rightarrow> error + bool" where
  "valid record =
     (case spatial_warp_num (spatial_factors record) 1 of
        Inl e \<Rightarrow> Inl e
      | Inr warp_num \<Rightarrow>
          if warp_num > 32 then Inr False
          else (case index (last_factors record) 0 of
                  Inl e \<Rightarrow> Inl e
                | Inr lf \<Rightarrow>
                    (case index (fst lf) 1 of
                       Inl e \<Rightarrow> Inl e
                     | Inr warp_num' \<Rightarrow>
                         if warp_num' > 32 then Inr False else Inr True)))"

text \<open>
  \<open>sa_select_entry\<close>. Iteration \<open>i\<close> of the loop draws
  \<open>choice = np.random.randint(0, num_cand)\<close> and one \<open>np.random.random()\<close>;
  \<open>draws i\<close> is that pair. The loop returns \<open>cand[i]\<close>, with the loop
  counter as the index.
\<close>

fun sa_loop ::
  "Entry list \<Rightarrow> real list \<Rightarrow> (nat \<Rightarrow> nat \<times> real) \<Rightarrow> nat \<Rightarrow> nat \<Rightarrow> error + Entry" where
  "sa_loop cand ps draws 0 i = index cand 0"
| "sa_loop cand ps draws (Suc n) i =
     (case index ps (fst (draws i)) of
        Inl e \<Rightarrow> Inl e
      | Inr p \<Rightarrow>
          if snd (draws i) < p then index cand i
          else sa_loop cand ps draws n (Suc i))"

definition sa_select_entry ::
  "(Entry \<Rightarrow> Entry \<Rightarrow> bool) \<Rightarrow> CUDAScheduleGenerator \<Rightarrow> nat \<Rightarrow> (nat \<Rightarrow> nat \<times> real)
     \<Rightarrow> error + Entry" where
  "sa_select_entry lt self max_num draws =
     (if \<not> length (entries self) > 0 then Inl AssertionError
      else
        let topk = nlargest lt (min max_num (length (entries self))) (entries self);
            cand = topk
        in (case index cand 0 of
              Inl e \<Rightarrow> Inl e
            | Inr best \<Rightarrow>
                let best_value = entry_value best;
                    ps = map (\<lambda>x. calculate_p (entry_value x) best_value) cand
                in sa_loop cand ps draws max_num 0))"

text \<open>
  The sub-generators inherit \<open>get\<close> from \<open>QLearningParamGenerator\<close>. One trial of
  \<open>CUDAScheduleGenerator.get\<close> consumes a \<open>draw\<close>: the record that the six
  calls with \<open>policy="random"\<close> assemble, the number \<open>greedy\<close> draws, the
  draws of \<open>sa_select_entry\<close>, and the record that the six calls with
  \<open>policy="q"\<close> assemble from the hints they are given.
\<close>

record Hints =
  hint_vectorize :: int
  hint_spatial :: "int list list"
  hint_reduce :: "int list list"
  hint_last :: "int list list"
  hint_output_unroll :: int
  hint_last_unroll :: int

record draw =
  rand_record :: Params
  coin :: real
  sa_draws :: "nat \<Rightarrow> nat \<times> real"
  q_record :: "Hints \<Rightarrow> Params"

text \<open>
  The hints are the first components of the entry's choices; indexing \<open>None\<close>
  is TypeError, and \<open>zip\<close> with the list of generators stops at the shorter
  list.
\<close>

definition hint_of :: "scalar_choice option \<Rightarrow> error + int" where
  "hint_of c = (case c of None \<Rightarrow> Inl TypeError | Some x \<Rightarrow> Inr (fst x))"

definition hints_of :: "CUDAScheduleGenerator \<Rightarrow> Params \<Rightarrow> error + Hints" where
  "hints_of self r =
     (case hint_of (vectorize r) of Inl e \<Rightarrow> Inl e | Inr hv \<Rightarrow>
      case hint_of (output_unroll_step r) of Inl e \<Rightarrow> Inl e | Inr ho \<Rightarrow>
      case hint_of (last_unroll_step r) of Inl e \<Rightarrow> Inl e | Inr hl \<Rightarrow>
        Inr \<lparr>hint_vectorize = hv,
             hint_spatial = map fst (take (n_spatial_splits self) (spatial_factors r)),
             hint_reduce = map fst (take (n_reduce_splits self) (reduce_factors r)),
             hint_last = map fst (take (n_last_splits self) (last_factors r)),
             hint_output_unroll = ho, hint_last_unroll = hl\<rparr>)"

datatype candidate = Candidate Params | ArchiveHead Entry

definition make_candidate ::
  "(Entry \<Rightarrow> Entry \<Rightarrow> bool) \<Rightarrow> CUDAScheduleGenerator \<Rightarrow> string \<Rightarrow> draw \<Rightarrow> error + candidate" where
  "make_candidate lt self policy d =
     (if policy = ''random'' \<or> entries self = [] then Inr (Candidate (rand_record d))
      else if policy = ''q'' then
        (if greedy self (coin d) then
           (case sa_select_entry lt self 20 (sa_draws d) of
              Inl e \<Rightarrow> Inl e
            | Inr entry \<Rightarrow>
                (case hints_of self (entry_record entry) of
                   Inl e \<Rightarrow> Inl e
                 | Inr h \<Rightarrow> Inr (Candidate (q_record d h))))
         else Inr (Candidate (rand_record d)))
      else if policy = ''greedy'' then
        (case index (entries self) 0 of Inl e \<Rightarrow> Inl e | Inr e0 \<Rightarrow> Inr (ArchiveHead e0))
      else Inl (RuntimeError (''Unknown policy: '' @ policy)))"

text \<open>
  \<open>str(record)\<close> is \<open>json.dumps(record.to_json())\<close>; \<open>dumps\<close> stands for the
  library function.
\<close>

definition str_of :: "(json_obj \<Rightarrow> string) \<Rightarrow> Params \<Rightarrow> string" where
  "str_of dumps record = dumps (to_json record)"

text \<open>
  \<open>get\<close> returns a record from inside the loop, or an archive entry
  (\<open>self.entries[0]\<close>) under the policy \<open>greedy\<close> and after the loop. The
  result carries the generator, whose \<open>visited\<close> set a returned record
  extends. \<open>draws i\<close> is what trial \<open>i\<close> consumes.
\<close>

datatype got = Record Params | Archived Entry

fun get_loop ::
  "(Entry \<Rightarrow> Entry \<Rightarrow> bool) \<Rightarrow> (json_obj \<Rightarrow> string) \<Rightarrow> CUDAScheduleGenerator \<Rightarrow> string \<Rightarrow> bool
     \<Rightarrow> (nat \<Rightarrow> draw) \<Rightarrow> nat \<Rightarrow> nat \<Rightarrow> error + got \<times> CUDAScheduleGenerator" where
  "get_loop lt dumps self policy repeat draws 0 i =
     (case index (entries self) 0 of
        Inl e \<Rightarrow> Inl e
      | Inr e0 \<Rightarrow> Inr (Archived e0, self))"
| "get_loop lt dumps self policy repeat draws (Suc n) i =
     (case make_candidate lt self policy (draws i) of
        Inl e \<Rightarrow> Inl e
      | Inr (ArchiveHead e0) \<Rightarrow> Inr (Archived e0, self)
      | Inr (Candidate record) \<Rightarrow>
          if repeat \<or> str_of dumps record \<notin> visited self then
            (case valid record of
               Inl e \<Rightarrow> Inl e
             | Inr True \<Rightarrow>
                 Inr (Record record,
                      self\<lparr>visited := insert (str_of dumps record) (visited self)\<rparr>)
             | Inr False \<Rightarrow> get_loop lt dumps self policy repeat draws n (Suc i))
          else get_loop lt dumps self policy repeat draws n (Suc i))"

definition get ::
  "(Entry \<Rightarrow> Entry \<Rightarrow> bool) \<Rightarrow> (json_obj \<Rightarrow> string) \<Rightarrow> CUDAScheduleGenerator \<Rightarrow> string \<Rightarrow> bool
     \<Rightarrow> int \<Rightarrow> (nat \<Rightarrow> draw) \<Rightarrow> error + got \<times> CUDAScheduleGenerator" where
  "get lt dumps self policy repeat max_trial draws =
     get_loop lt dumps self policy repeat draws (nat max_trial) 0"

text \<open>
  The text \<open>json.dumps\<close> writes for such a dict, with the keys in the order
  \<open>to_json\<close> inserts them: lists and tuples as arrays, \<open>None\<close> as \<open>null\<close>.
\<close>

function show_nat :: "nat \<Rightarrow> string" where
  "show_nat n =
     (if n < 10 then [char_of (48 + n)]
      else show_nat (n div 10) @ [char_of (48 + n mod 10)])"
  by pat_completeness auto
termination
  by (relation "measure id") auto

declare show_nat.simps [simp del]

definition show_int :: "int \<Rightarrow> string" where
  "show_int i = (if i < 0 then CHR ''-'' # show_nat (nat (- i)) else show_nat (nat i))"

fun join :: "string \<Rightarrow> string list \<Rightarrow> string" where
  "join sep [] = []"
| "join sep [x] = x"
| "join sep (x # y # ys) = x @ sep @ join sep (y # ys)"

definition show_seq :: "string list \<Rightarrow> string" where
  "show_seq items = ''['' @ join '', '' items @ '']''"

definition show_split :: "split_choice \<Rightarrow> string" where
  "show_split c = show_seq [show_seq (map show_int (fst c)), show_seq (map show_int (snd c))]"

fun show_value :: "json_value \<Rightarrow> string" where
  "show_value (JChoice None) = ''null''"
| "show_value (JChoice (Some c)) = show_seq [show_int (fst c), show_int (snd c)]"
| "show_value (JSplits ss) = show_seq (map show_split ss)"

definition show_item :: "json_obj \<Rightarrow> string \<Rightarrow> string list" where
  "show_item obj k =
     (case obj k of
        None \<Rightarrow> []
      | Some v \<Rightarrow> [[CHR 0x22] @ k @ [CHR 0x22] @ '': '' @ show_value v])"

definition json_dumps :: "json_obj \<Rightarrow> string" where
  "json_dumps obj =
     ''{'' @ join '', '' (concat (map (show_item obj)
        [''vectorize'', ''spatial_factors'', ''reduce_factors'', ''last_factors'',
         ''output_unroll_step'', ''last_unroll_step''])) @ ''}''"

text \<open>
  \<open>feedback\<close> pushes the new entry on the archive with \<open>heapq.heappush\<close>:
  the entry is appended and sifted towards the root while it is less than its
  parent. Then it forwards the value to the sub-generators, unpacking each
  choice; unpacking \<open>None\<close> is TypeError. What the sub-generators do with the
  value (the \<open>feedback\<close> of \<open>QLearningParamGenerator\<close>) is not modelled.
\<close>

function siftdown :: "('a \<Rightarrow> 'a \<Rightarrow> bool) \<Rightarrow> 'a list \<Rightarrow> 'a \<Rightarrow> nat \<Rightarrow> nat \<Rightarrow> 'a list" where
  "siftdown lt heap newitem startpos pos =
     (if pos > startpos then
        (if lt newitem (heap ! ((pos - 1) div 2)) then
           siftdown lt (heap[pos := heap ! ((pos - 1) div 2)]) newitem startpos ((pos - 1) div 2)
         else heap[pos := newitem])
      else heap[pos := newitem])"
  by pat_completeness auto
termination
  by (relation "measure (\<lambda>(lt, heap, newitem, startpos, pos). pos)") auto

declare siftdown.simps [simp del]

definition heappush :: "('a \<Rightarrow> 'a \<Rightarrow> bool) \<Rightarrow> 'a list \<Rightarrow> 'a \<Rightarrow> 'a list" where
  "heappush lt heap item = siftdown lt (heap @ [item]) item 0 (length heap)"

definition feedback ::
  "(Entry \<Rightarrow> Entry \<Rightarrow> bool) \<Rightarrow> CUDAScheduleGenerator \<Rightarrow> Params \<Rightarrow> real
     \<Rightarrow> error + CUDAScheduleGenerator" where
  "feedback lt self record v =
     (let entry = \<lparr>entry_record = record, entry_value = v\<rparr>;
          self' = self\<lparr>entries := heappush lt (entries self) entry\<rparr>
      in if vectorize record = None \<or> output_unroll_step record = None
            \<or> last_unroll_step record = None
         then Inl TypeError
         else Inr self')"

text \<open>
  The archive is a \<open>heapq\<close> heap under the entries' order: no entry is less
  than its parent. The order is assumed to be a strict weak order, as the
  order of entries by a number is.
\<close>

definition strict_weak_order :: "('a \<Rightarrow> 'a \<Rightarrow> bool) \<Rightarrow> bool" where
  "strict_weak_order lt =
     ((\<forall>a. \<not> lt a a)
      \<and> (\<forall>a b c. lt a b \<and> lt b c \<longrightarrow> lt a c)
      \<and> (\<forall>a b c. \<not> lt a b \<and> \<not> lt b c \<longrightarrow> \<not> lt a c))"

definition is_heap :: "('a \<Rightarrow> 'a \<Rightarrow> bool) \<Rightarrow> 'a list \<Rightarrow> bool" where
  "is_heap lt h = (\<forall>i. 0 < i \<and> i < length h \<longrightarrow> \<not> lt (h ! i) (h ! ((i - 1) div 2)))"

text \<open>
  A trial of \<open>get\<close> is rejected when it assembles a candidate and the loop
  goes on to the next trial: the candidate's string is in \<open>visited\<close> (and
  \<open>repeat\<close> is off), or \<open>valid\<close> returns \<open>False\<close> for it.
\<close>

definition rejected ::
  "(Entry \<Rightarrow> Entry \<Rightarrow> bool) \<Rightarrow> (json_obj \<Rightarrow> string) \<Rightarrow> CUDAScheduleGenerator \<Rightarrow> string \<Rightarrow> bool
     \<Rightarrow> draw \<Rightarrow> bool" where
  "rejected lt dumps self policy repeat d =
     (case make_candidate lt self policy d of
        Inr (Candidate record) \<Rightarrow>
          (if repeat \<or> str_of dumps record \<notin> visited self then valid record = Inr False
           else True)
      | _ \<Rightarrow> False)"

subsection \<open>Inputs of the examples\<close>

definition lt_by_value :: "Entry \<Rightarrow> Entry \<Rightarrow> bool" where
  "lt_by_value a b = (entry_value a < entry_value b)"

definition example_record :: Params where
  "example_record =
     \<lparr>vectorize = Some (4, 0),
      spatial_factors = [([2, 4, 8], [0, 0]), ([4, 2, 8], [0, 0])],
      reduce_factors = [([4, 4, 4], [0, 0])],
      last_factors = [([64, 32], [0])],
      output_unroll_step = Some (64, 0),
      last_unroll_step = Some (512, 0)\<rparr>"

definition wide_record :: Params where
  "wide_record = example_record\<lparr>spatial_factors := [([1, 8, 8], [0, 0]), ([2, 8, 4], [0, 0])]\<rparr>"

definition example_generator :: CUDAScheduleGenerator where
  "example_generator =
     \<lparr>eps = 1 / 10, n_spatial_splits = 2, n_reduce_splits = 1, n_last_splits = 1,
      entries = [], visited = {}\<rparr>"

definition fixed_draw :: "Params \<Rightarrow> draw" where
  "fixed_draw r =
     \<lparr>rand_record = r, coin = 0, sa_draws = (\<lambda>i. (0, 0)), q_record = (\<lambda>h. r)\<rparr>"

definition always :: "'a \<Rightarrow> nat \<Rightarrow> 'a" where
  "always d i = d"

definition example_entry :: Entry where
  "example_entry = \<lparr>entry_record = example_record, entry_value = 5\<rparr>"

definition archived_generator :: CUDAScheduleGenerator where
  "archived_generator = example_generator\<lparr>entries := [example_entry]\<rparr>"

definition low_entry :: Entry where
  "low_entry = \<lparr>entry_record = wide_record, entry_value = 4\<rparr>"

definition heap_generator :: CUDAScheduleGenerator where
  "heap_generator = example_generator\<lparr>entries := [low_entry, example_entry]\<rparr>"

definition other_entry :: Entry where
  "other_entry = \<lparr>entry_record = wide_record, entry_value = 5\<rparr>"

section \<open>The compute graph and auto_schedule\<close>

text \<open>
  Loop axes are TVM objects; the model names them. The axes of an operation
  are \<open>IterVar\<close>s, and a schedule primitive that creates axes yields terms
  over the axes it was given: \<open>split(iv, factor=f)\<close> returns
  \<open>(SplitOuter iv f, SplitInner iv f)\<close>, \<open>split(iv, nparts=n)\<close> returns
  \<open>(NpartsOuter iv n, NpartsInner iv n)\<close>, \<open>fuse(*axes)\<close> returns
  \<open>Fused axes\<close>. \<open>CacheAxis name i\<close> is axis \<open>i\<close> of the cache stage that
  \<open>cache_read\<close> creates for the output of the operation \<open>name\<close>.

  An operation carries its name, whether it is a \<open>ComputeOp\<close>, and its lists
  of axes; an operation without a reduction has the empty list of reduce axes.
  Operations are compared by their fields.
\<close>

datatype iter_var =
    IterVar string
  | SplitOuter iter_var int
  | SplitInner iter_var int
  | NpartsOuter iter_var int
  | NpartsInner iter_var int
  | Fused "iter_var list"
  | CacheAxis string nat

record Operation =
  op_name :: string
  is_ComputeOp :: bool
  axis :: "iter_var list"
  reduce_axis :: "iter_var list"

record ComputeDAG =
  op_lst :: "Operation list"
  feed_graph :: "Operation \<rightharpoonup> Operation list"

text \<open>
  \<open>transform_state.main_op_map\<close> is a dict; \<open>main_op_map\<close> holds its items
  in iteration order. The recipe of the match result is read for its target.
\<close>

record TransformState =
  main_op_map :: "(Operation \<times> Operation) list"
  ts_target_dag :: ComputeDAG

fun check_reduce_ops :: "Operation list \<Rightarrow> Operation \<Rightarrow> error + unit" where
  "check_reduce_ops [] target_main_op = Inr ()"
| "check_reduce_ops (op # ops) target_main_op =
     (if length (reduce_axis op) > 0 \<and> op \<noteq> target_main_op then
        Inl (RuntimeError ''We do not support scheduling for reduce op which is not main op.'')
      else check_reduce_ops ops target_main_op)"

text \<open>
  The loop \<open>for k, v in main_op_map.items(): target_main_op = v\<close> leaves the
  last value, or \<open>None\<close> for an empty dict.
\<close>

definition target_main_op :: "TransformState \<Rightarrow> Operation option" where
  "target_main_op transform_state =
     foldl (\<lambda>_ kv. Some (snd kv)) None (main_op_map transform_state)"

definition auto_schedule :: "string \<Rightarrow> TransformState \<Rightarrow> error + unit" where
  "auto_schedule recipe_target transform_state =
     (case target_main_op transform_state of
        None \<Rightarrow> Inl AssertionError
      | Some m \<Rightarrow>
          (case check_reduce_ops (op_lst (ts_target_dag transform_state)) m of
             Inl e \<Rightarrow> Inl e
           | Inr _ \<Rightarrow>
               if recipe_target = ''cuda'' then Inr ()
               else Inl (RuntimeError (''Target not supported: '' @ recipe_target))))"

definition placeholder_A :: Operation where
  "placeholder_A = \<lparr>op_name = ''A'', is_ComputeOp = False, axis = [], reduce_axis = []\<rparr>"

definition gemm_op :: Operation where
  "gemm_op =
     \<lparr>op_name = ''C'', is_ComputeOp = True, axis = [IterVar ''i'', IterVar ''j''],
      reduce_axis = [IterVar ''k'']\<rparr>"

definition relu_op :: Operation where
  "relu_op =
     \<lparr>op_name = ''relu'', is_ComputeOp = True, axis = [IterVar ''i'', IterVar ''j''],
      reduce_axis = []\<rparr>"

definition sum_op :: Operation where
  "sum_op =
     \<lparr>op_name = ''sum'', is_ComputeOp = True, axis = [IterVar ''i''],
      reduce_axis = [IterVar ''r'']\<rparr>"

definition example_transform_state :: TransformState where
  "example_transform_state =
     \<lparr>main_op_map = [(gemm_op, gemm_op)],
      ts_target_dag =
        \<lparr>op_lst = [placeholder_A, gemm_op, relu_op],
         feed_graph = [placeholder_A \<mapsto> [gemm_op], gemm_op \<mapsto> [relu_op]]\<rparr>\<rparr>"

definition two_reduce_transform_state :: TransformState where
  "two_reduce_transform_state =
     \<lparr>main_op_map = [(gemm_op, gemm_op)],
      ts_target_dag =
        \<lparr>op_lst = [placeholder_A, gemm_op, sum_op],
         feed_graph = [placeholder_A \<mapsto> [gemm_op], gemm_op \<mapsto> [sum_op]]\<rparr>\<rparr>"

section \<open>The schedule applier\<close>

text \<open>
  Sequencing of steps that can raise, and the Python list operations the
  applier uses: an index that may be negative, and slices.
\<close>

definition and_then :: "error + 'a \<Rightarrow> ('a \<Rightarrow> error + 'b) \<Rightarrow> error + 'b" where
  "and_then m f = (case m of Inl e \<Rightarrow> Inl e | Inr x \<Rightarrow> f x)"

definition py_assert :: "bool \<Rightarrow> error + unit" where
  "py_assert b = (if b then Inr () else Inl AssertionError)"

definition py_index :: "'a list \<Rightarrow> int \<Rightarrow> error + 'a" where
  "py_index xs i =
     (if 0 \<le> i \<and> i < int (length xs) then Inr (xs ! nat i)
      else if i < 0 \<and> - int (length xs) \<le> i then Inr (xs ! nat (int (length xs) + i))
      else Inl IndexError)"

definition slice_bound :: "'a list \<Rightarrow> int \<Rightarrow> nat" where
  "slice_bound xs i =
     (if i < 0 then nat (max 0 (int (length xs) + i)) else min (length xs) (nat i))"

definition slice_to :: "'a list \<Rightarrow> int \<Rightarrow> 'a list" where
  "slice_to xs j = take (slice_bound xs j) xs"

definition slice_from :: "'a list \<Rightarrow> int \<Rightarrow> 'a list" where
  "slice_from xs i = drop (slice_bound xs i) xs"

definition slice :: "'a list \<Rightarrow> int \<Rightarrow> int \<Rightarrow> 'a list" where
  "slice xs i j = drop (slice_bound xs i) (take (slice_bound xs j) xs)"

text \<open>
  \<open>[list(x) for x in zip(*parts)]\<close>: the transposition, as long as the
  shortest part, and empty for no parts.
\<close>

definition zip_star :: "'a list list \<Rightarrow> 'a list list" where
  "zip_star parts =
     (if parts = [] then []
      else map (\<lambda>i. map (\<lambda>p. p ! i) parts) [0 ..< Min (set (map length parts))])"

text \<open>
  The roles and the instruction scopes are enumerations of the recipe module;
  the applier names the three roles below and the scope \<open>thread\<close>.
\<close>

datatype OperationRole = role_load_op | role_main_op | role_output_op

datatype InstructionScope = scope_thread | scope_warp

record RecipeStage =
  operation_role :: "Operation \<rightharpoonup> OperationRole"
  reserve_inner_axis_count :: "Operation \<rightharpoonup> nat"
  main_op_reserve_reduce_axis :: "int list"
  capsule_key :: "Operation \<rightharpoonup> string"
  instruction_scope :: InstructionScope

record State =
  inlined :: "Operation set"
  main_op_reduce_axis :: "iter_var list list"
  output_op_axis :: "iter_var list list"
  last_op_axis :: "iter_var list list"
  tensorize_iter :: "Operation \<rightharpoonup> iter_var"

definition empty_state :: State where
  "empty_state =
     \<lparr>inlined = {}, main_op_reduce_axis = [], output_op_axis = [], last_op_axis = [],
      tensorize_iter = Map.empty\<rparr>"

text \<open>
  The TVM schedule is an object the primitives mutate through its methods. The
  model keeps the schedule as the list of the method calls made on it, in
  order; TVM's own checks of these calls are not part of the model. A stage is
  that of an operation, or that of the cache \<open>sch.cache_read\<close> returned for an
  operation's output. \<open>recipe.get_intrinsic\<close> is represented by its three
  arguments.
\<close>

datatype stage = OpStage Operation | CacheStage Operation

datatype thread_axis = ThreadAxis string

datatype intrinsic = Intrinsic string string string

datatype command =
    ComputeInline stage
  | CacheRead Operation string "Operation list"
  | ComputeAt stage stage iter_var
  | Fuse stage "iter_var list"
  | Split stage iter_var int
  | SplitNparts stage iter_var int
  | Bind stage iter_var thread_axis
  | Vectorize stage iter_var
  | SetScope stage string
  | Reorder stage "iter_var list"
  | Pragma stage iter_var string int
  | Tensorize stage iter_var intrinsic

type_synonym schedule = "command list"

record CUDAScheduleApplier =
  compute_key :: string
  shape_key :: string
  target_dag :: ComputeDAG
  main_op :: Operation
  output_op :: Operation
  main_op_id :: int
  output_op_id :: int
  recipe_stage :: RecipeStage
  state :: State
  params :: Params
  warp_size :: int
  bx :: thread_axis
  ty :: thread_axis
  tx :: thread_axis
  obx :: thread_axis
  oty :: thread_axis
  otx :: thread_axis
  reduce_tiling_parts :: int
  spatial_tiling_parts :: int
  last_op_tiling_parts :: int

text \<open>
  The constructor copies the schedule compute info and the keys of the match
  result, and starts from the empty state and the empty parameters.
\<close>

definition CUDAScheduleApplier_init ::
  "string \<Rightarrow> string \<Rightarrow> ComputeDAG \<Rightarrow> Operation \<Rightarrow> Operation \<Rightarrow> int \<Rightarrow> int \<Rightarrow> RecipeStage
     \<Rightarrow> CUDAScheduleApplier" where
  "CUDAScheduleApplier_init ck sk dag mop oop mid oid rs =
     \<lparr>compute_key = ck, shape_key = sk, target_dag = dag, main_op = mop, output_op = oop,
      main_op_id = mid, output_op_id = oid, recipe_stage = rs,
      state = empty_state, params = empty_params, warp_size = 32,
      bx = ThreadAxis ''blockIdx.x'', ty = ThreadAxis ''threadIdx.y'',
      tx = ThreadAxis ''threadIdx.x'', obx = ThreadAxis ''blockIdx.x'',
      oty = ThreadAxis ''threadIdx.y'', otx = ThreadAxis ''threadIdx.x'',
      reduce_tiling_parts = 3, spatial_tiling_parts = 3, last_op_tiling_parts = 2\<rparr>"

definition initialize_state :: "CUDAScheduleApplier \<Rightarrow> CUDAScheduleApplier" where
  "initialize_state self = self\<lparr>state := empty_state\<rparr>"

definition initialize_parameters :: "CUDAScheduleApplier \<Rightarrow> Params \<Rightarrow> CUDAScheduleApplier" where
  "initialize_parameters self ps = self\<lparr>params := ps\<rparr>"

subsection \<open>Reading the state and the parameters\<close>

definition get_main_op_outermost_last_reduce_axis :: "CUDAScheduleApplier \<Rightarrow> error + iter_var" where
  "get_main_op_outermost_last_reduce_axis self =
     (if length (main_op_reduce_axis (state self)) > 0 then
        and_then (py_assert (length (main_op_reduce_axis (state self) ! 0) > 0)) (\<lambda>_.
        py_index (main_op_reduce_axis (state self) ! 0) (- 1))
      else Inl (RuntimeError ''No reduce axis in main op.''))"

definition get_main_op_second_outermost_last_reduce_axis ::
  "CUDAScheduleApplier \<Rightarrow> error + iter_var" where
  "get_main_op_second_outermost_last_reduce_axis self =
     (if length (main_op_reduce_axis (state self)) > 1 then
        and_then (py_assert (length (main_op_reduce_axis (state self) ! 1) > 0)) (\<lambda>_.
        py_index (main_op_reduce_axis (state self) ! 1) (- 1))
      else get_main_op_outermost_last_reduce_axis self)"

definition get_output_op_third_innermost_last_axis :: "CUDAScheduleApplier \<Rightarrow> error + iter_var" where
  "get_output_op_third_innermost_last_axis self =
     and_then (py_assert (length (output_op_axis (state self)) > 2)) (\<lambda>_.
     and_then (py_index (output_op_axis (state self)) (- 3)) (\<lambda>level.
     and_then (py_assert (length level > 0)) (\<lambda>_.
     py_index level (- 1))))"

definition get_output_op_outermost_last_axis :: "CUDAScheduleApplier \<Rightarrow> error + iter_var" where
  "get_output_op_outermost_last_axis self =
     and_then (py_assert (length (output_op_axis (state self)) > 1)) (\<lambda>_.
     and_then (py_index (output_op_axis (state self)) 0) (\<lambda>level.
     and_then (py_assert (length level > 0)) (\<lambda>_.
     py_index level (- 1))))"

definition get_last_op_second_innermost_last_axis :: "CUDAScheduleApplier \<Rightarrow> error + iter_var" where
  "get_last_op_second_innermost_last_axis self =
     and_then (py_assert (length (last_op_axis (state self)) > 0)) (\<lambda>_.
     and_then (py_index (last_op_axis (state self)) (- 1)) (\<lambda>level.
     and_then (py_assert (length level > 1)) (\<lambda>_.
     py_index level (- 2))))"

definition get_last_op_outermost_last_axis :: "CUDAScheduleApplier \<Rightarrow> error + iter_var" where
  "get_last_op_outermost_last_axis self =
     and_then (py_assert (length (last_op_axis (state self)) > 0)) (\<lambda>_.
     and_then (py_index (last_op_axis (state self)) 0) (\<lambda>level.
     and_then (py_assert (length level > 0)) (\<lambda>_.
     py_index level 0)))"

definition get_tensorize_iter :: "CUDAScheduleApplier \<Rightarrow> Operation \<Rightarrow> error + iter_var" where
  "get_tensorize_iter self op =
     (case tensorize_iter (state self) op of
        None \<Rightarrow> Inl AssertionError
      | Some iv \<Rightarrow> Inr iv)"

fun warp_numbers_loop :: "split_choice list \<Rightarrow> int \<Rightarrow> error + int" where
  "warp_numbers_loop [] ret = Inr ret"
| "warp_numbers_loop (part # rest) ret =
     and_then (py_assert (length (fst part) > 1)) (\<lambda>_.
     and_then (py_index (fst part) (- 2)) (\<lambda>f.
     warp_numbers_loop rest (ret * f)))"

definition get_main_op_warp_numbers :: "CUDAScheduleApplier \<Rightarrow> error + int" where
  "get_main_op_warp_numbers self =
     and_then (py_assert (length (spatial_factors (params self)) > 0)) (\<lambda>_.
     warp_numbers_loop (spatial_factors (params self)) 1)"

definition get_main_op_reduce_axis_factors :: "CUDAScheduleApplier \<Rightarrow> nat \<Rightarrow> error + int list list" where
  "get_main_op_reduce_axis_factors self number =
     and_then (py_assert (length (reduce_factors (params self)) \<ge> number)) (\<lambda>_.
     Inr (map fst (take number (reduce_factors (params self)))))"

definition get_output_op_axis_factors :: "CUDAScheduleApplier \<Rightarrow> nat \<Rightarrow> error + int list list" where
  "get_output_op_axis_factors self number =
     and_then (py_assert (length (spatial_factors (params self)) \<ge> number)) (\<lambda>_.
     Inr (map fst (take number (spatial_factors (params self)))))"

definition get_last_op_axis_factors :: "CUDAScheduleApplier \<Rightarrow> nat \<Rightarrow> error + int list list" where
  "get_last_op_axis_factors self number =
     and_then (py_assert (length (last_factors (params self)) \<ge> number)) (\<lambda>_.
     Inr (map fst (take number (last_factors (params self)))))"

text \<open>
  In \<open>get_last_op_warp_numbers\<close> a part is a pair, so \<open>len(part) > 0\<close> holds;
  \<open>part[0][-1]\<close> is IndexError for an empty list of factors.
\<close>

fun last_warp_numbers_loop :: "split_choice list \<Rightarrow> int \<Rightarrow> error + int" where
  "last_warp_numbers_loop [] ret = Inr ret"
| "last_warp_numbers_loop (part # rest) ret =
     and_then (py_index (fst part) (- 1)) (\<lambda>f.
     last_warp_numbers_loop rest (ret * f))"

definition get_last_op_warp_numbers :: "CUDAScheduleApplier \<Rightarrow> error + int" where
  "get_last_op_warp_numbers self =
     and_then (py_assert (length (last_factors (params self)) > 0)) (\<lambda>_.
     last_warp_numbers_loop (last_factors (params self)) 1)"

definition get_vectorize_length :: "CUDAScheduleApplier \<Rightarrow> error + int" where
  "get_vectorize_length self =
     (case vectorize (params self) of None \<Rightarrow> Inl AssertionError | Some c \<Rightarrow> Inr (fst c))"

definition get_output_op_unroll_step :: "CUDAScheduleApplier \<Rightarrow> error + int" where
  "get_output_op_unroll_step self =
     (case output_unroll_step (params self) of
        None \<Rightarrow> Inl AssertionError
      | Some c \<Rightarrow> Inr (fst c))"

definition get_last_op_unroll_step :: "CUDAScheduleApplier \<Rightarrow> error + int" where
  "get_last_op_unroll_step self =
     (case last_unroll_step (params self) of
        None \<Rightarrow> Inl AssertionError
      | Some c \<Rightarrow> Inr (fst c))"

definition check_parameter_ready :: "CUDAScheduleApplier \<Rightarrow> bool" where
  "check_parameter_ready self = True"

subsection \<open>The primitives\<close>

type_synonym primitive =
  "CUDAScheduleApplier \<Rightarrow> int \<Rightarrow> Operation \<Rightarrow> schedule \<Rightarrow> (Operation \<Rightarrow> Operation)
     \<Rightarrow> error + CUDAScheduleApplier \<times> schedule"

definition can_inline :: "Operation \<Rightarrow> ComputeDAG \<Rightarrow> bool" where
  "can_inline op dag =
     (if feed_graph dag op = None then False
      else if \<not> is_ComputeOp op then False
      else if length (reduce_axis op) > 0 then False
      else True)"

definition inline :: primitive where
  "inline self op_id op sch X =
     (if operation_role (recipe_stage self) op \<noteq> None then Inr (self, sch)
      else if can_inline op (target_dag self) then
        Inr (self\<lparr>state := (state self)\<lparr>inlined := insert op (inlined (state self))\<rparr>\<rparr>,
             sch @ [ComputeInline (OpStage (X op))])
      else Inr (self, sch))"

definition cache_axes :: "Operation \<Rightarrow> iter_var list" where
  "cache_axes op = map (CacheAxis (op_name op)) [0 ..< length (axis op)]"

definition cache_read :: primitive where
  "cache_read self op_id op sch X =
     (if operation_role (recipe_stage self) op \<noteq> None then Inr (self, sch)
      else case feed_graph (target_dag self) op of
        None \<Rightarrow> Inr (self, sch)
      | Some consumers \<Rightarrow>
          if length consumers \<le> 0 then Inr (self, sch)
          else
            let do_cache_read_for_load =
                  (operation_role (recipe_stage self) (consumers ! 0) = Some role_load_op
                   \<and> length consumers = 1)
            in
            and_then (py_index (op_lst (target_dag self)) (- 1)) (\<lambda>last_op.
            let do_cache_read_for_last = (consumers ! 0 = last_op \<and> length consumers = 1) in
            and_then (py_assert (\<not> (do_cache_read_for_load \<and> do_cache_read_for_last))) (\<lambda>_.
            if do_cache_read_for_load then
              let S = CacheStage (X op);
                  sch1 = sch @ [CacheRead (X op) ''shared'' (map X consumers)]
              in
              and_then (get_main_op_outermost_last_reduce_axis self) (\<lambda>ax.
              let sch2 = sch1 @ [ComputeAt S (OpStage (X (main_op self))) ax] in
              and_then (get_main_op_warp_numbers self) (\<lambda>warp_num.
              and_then (get_vectorize_length self) (\<lambda>vec_len.
              let fused0 = Fused (cache_axes (X op));
                  fused1 = SplitOuter fused0 vec_len;
                  vectorized = SplitInner fused0 vec_len;
                  fused2 = SplitOuter fused1 (warp_size self);
                  thread_level = SplitInner fused1 (warp_size self);
                  warp_level = SplitInner fused2 warp_num
              in Inr (self,
                      sch2 @ [Fuse S (cache_axes (X op)),
                              Split S fused0 vec_len,
                              Split S fused1 (warp_size self),
                              Split S fused2 warp_num,
                              Bind S thread_level (tx self),
                              Bind S warp_level (ty self),
                              Vectorize S vectorized]))))
            else Inr (self, sch))))"

definition set_scope :: primitive where
  "set_scope self op_id op sch X =
     (case operation_role (recipe_stage self) op of
        None \<Rightarrow> Inr (self, sch)
      | Some role \<Rightarrow>
          if role \<noteq> role_output_op then Inr (self, sch @ [SetScope (OpStage (X op)) ''local''])
          else Inr (self, sch))"

text \<open>
  The inner loop of \<open>tiling\<close> splits an axis by the factors after the first,
  from the innermost outwards, and collects the inner axes; the part is the
  remaining outer axis followed by the inner axes, outermost first.
\<close>

fun split_factors_loop ::
  "stage \<Rightarrow> iter_var \<Rightarrow> int list \<Rightarrow> iter_var list \<Rightarrow> schedule
     \<Rightarrow> iter_var \<times> iter_var list \<times> schedule" where
  "split_factors_loop st iv [] part sch = (iv, part, sch)"
| "split_factors_loop st iv (f # fs) part sch =
     split_factors_loop st (SplitOuter iv f) fs (part @ [SplitInner iv f])
       (sch @ [Split st iv f])"

definition split_by_factors ::
  "stage \<Rightarrow> iter_var \<Rightarrow> int list \<Rightarrow> schedule \<Rightarrow> iter_var list \<times> schedule" where
  "split_by_factors st iv factors sch =
     (case split_factors_loop st iv (rev (drop 1 factors)) [] sch of
        (iv', part, sch') \<Rightarrow> (rev (part @ [iv']), sch'))"

fun split_axes ::
  "stage \<Rightarrow> (iter_var \<times> int list) list \<Rightarrow> schedule \<Rightarrow> iter_var list list \<times> schedule" where
  "split_axes st [] sch = ([], sch)"
| "split_axes st (ivf # rest) sch =
     (case split_by_factors st (fst ivf) (snd ivf) sch of
        (part, sch1) \<Rightarrow>
          (case split_axes st rest sch1 of
             (parts, sch2) \<Rightarrow> (part # parts, sch2)))"

text \<open>
  The axes of an operation are taken as Python lists. The main operation's
  reduce axes whose position is listed in \<open>main_op_reserve_reduce_axis\<close> are
  reserved, the others are split.
\<close>

definition reserve_reduce_axis_of :: "RecipeStage \<Rightarrow> iter_var list \<Rightarrow> iter_var list" where
  "reserve_reduce_axis_of rs all_reduce_axis =
     map snd (filter (\<lambda>p. int (fst p) \<in> set (main_op_reserve_reduce_axis rs))
                (List.enumerate 0 all_reduce_axis))"

definition split_reduce_axis_of :: "RecipeStage \<Rightarrow> iter_var list \<Rightarrow> iter_var list" where
  "split_reduce_axis_of rs all_reduce_axis =
     map snd (filter (\<lambda>p. int (fst p) \<notin> set (main_op_reserve_reduce_axis rs))
                (List.enumerate 0 all_reduce_axis))"

definition tiling_main_op :: primitive where
  "tiling_main_op self op_id op sch X =
     (let axis0 = axis (X op) in
      and_then (lookup (reserve_inner_axis_count (recipe_stage self)) op) (\<lambda>n.
      let reserve_spatial_num = int n;
          spatial_axis_split_parts =
            [slice_to axis0 (- reserve_spatial_num), slice_from axis0 (- reserve_spatial_num)];
          all_reduce_axis = reduce_axis (X op);
          reserve_reduce_axis = reserve_reduce_axis_of (recipe_stage self) all_reduce_axis;
          split_reduce_axis = split_reduce_axis_of (recipe_stage self) all_reduce_axis;
          reserve_reduce_num = int (length reserve_reduce_axis)
      in
      and_then (get_output_op_third_innermost_last_axis self) (\<lambda>pos.
      let sch1 = sch @ [ComputeAt (OpStage (X op)) (OpStage (X (output_op self))) pos] in
      and_then (get_main_op_reduce_axis_factors self (length split_reduce_axis))
        (\<lambda>reduce_axis_split_factors.
      case split_axes (OpStage (X op)) (zip split_reduce_axis reduce_axis_split_factors) sch1 of
        (reduce_axis_split_parts, sch2) \<Rightarrow>
      let reordered_reduce_axis = zip_star reduce_axis_split_parts @ [reserve_reduce_axis] in
      and_then (py_assert (length reordered_reduce_axis > 3)) (\<lambda>_.
      let ordered_axis =
            concat (slice_to reordered_reduce_axis (- 2)
                    @ [spatial_axis_split_parts ! 0]
                    @ slice reordered_reduce_axis (- 2) (- 1)
                    @ [spatial_axis_split_parts ! 1]
                    @ slice_from reordered_reduce_axis (- 1));
          sch3 = sch2 @ [Reorder (OpStage (X op)) ordered_axis]
      in
      and_then (py_index ordered_axis (- (reserve_spatial_num + reserve_reduce_num))) (\<lambda>t.
      Inr (self\<lparr>state := (state self)
                 \<lparr>main_op_reduce_axis := reordered_reduce_axis,
                  tensorize_iter := (tensorize_iter (state self))(op \<mapsto> t)\<rparr>\<rparr>,
           sch3)))))))"

definition tiling_output_op :: primitive where
  "tiling_output_op self op_id op sch X =
     (let axis0 = axis (X op); st = OpStage (X op) in
      and_then (lookup (reserve_inner_axis_count (recipe_stage self)) op) (\<lambda>n.
      let reserve_spatial_num = int n;
          split_spatial_axis = slice_to axis0 (- reserve_spatial_num);
          reserve_spatial_axis = slice_from axis0 (- reserve_spatial_num)
      in
      and_then (get_output_op_axis_factors self (length split_spatial_axis))
        (\<lambda>spatial_axis_split_factors.
      case split_axes st (zip split_spatial_axis spatial_axis_split_factors) sch of
        (spatial_axis_split_parts, sch1) \<Rightarrow>
      let reordered_spatial_axis = zip_star spatial_axis_split_parts @ [reserve_spatial_axis];
          ordered_axis = concat reordered_spatial_axis;
          sch2 = sch1 @ [Reorder st ordered_axis]
      in
      and_then (py_assert (length reordered_spatial_axis > 3)) (\<lambda>_.
      let levels = slice_to reordered_spatial_axis (- 2);
          fused_axis = map Fused levels;
          sch3 = sch2 @ map (Fuse st) levels;
          final_axis = map (\<lambda>x. [x]) fused_axis
      in
      and_then (py_index fused_axis 0) (\<lambda>first_fused.
      let sch4 = sch3 @ [Bind st first_fused (bx self)]
                   @ map (\<lambda>med_fused. Bind st med_fused (ThreadAxis ''vthread''))
                       (slice fused_axis 1 (- 1))
      in
      and_then (py_index fused_axis (- 1)) (\<lambda>last_fused.
      let sch5 = sch4 @ [Bind st last_fused (ty self)] in
      and_then (py_index reordered_spatial_axis (- 2)) (\<lambda>level2.
      and_then (py_index reordered_spatial_axis (- 1)) (\<lambda>level3.
      let fused = Fused level2;
          outer = NpartsOuter fused (warp_size self);
          inner = NpartsInner fused (warp_size self);
          thread_scope = (instruction_scope (recipe_stage self) = scope_thread);
          sch6 = (if thread_scope then
                    sch5 @ [Fuse st level2, SplitNparts st fused (warp_size self),
                            Bind st outer (tx self)]
                  else sch5);
          final_axis' = (if thread_scope then final_axis @ [[outer, inner]] @ [level3]
                         else final_axis @ [level2] @ [level3])
      in
      and_then (py_index final_axis' (- 1)) (\<lambda>last_level.
      and_then (py_index last_level (- 2)) (\<lambda>t.
      Inr (self\<lparr>state := (state self)
                 \<lparr>output_op_axis := final_axis',
                  tensorize_iter := (tensorize_iter (state self))(op \<mapsto> t)\<rparr>\<rparr>,
           sch6)))))))))))"

definition tiling_last_op :: primitive where
  "tiling_last_op self op_id op sch X =
     (let axis0 = axis (X op); st = OpStage (X op);
          fused0 = Fused axis0;
          fused1 = SplitOuter fused0 (warp_size self);
          thread_level = SplitInner fused0 (warp_size self);
          sch1 = sch @ [Fuse st axis0, Split st fused0 (warp_size self)]
      in
      and_then (get_last_op_axis_factors self 1) (\<lambda>split_factors.
      and_then (py_index split_factors 0) (\<lambda>factors.
      case split_by_factors st fused1 factors sch1 of
        (split_parts, sch2) \<Rightarrow>
      and_then (py_index split_parts 0) (\<lambda>first_part.
      and_then (py_index split_parts (- 1)) (\<lambda>last_part.
      Inr (self\<lparr>state := (state self)\<lparr>last_op_axis := [split_parts @ [thread_level]]\<rparr>\<rparr>,
           sch2 @ [Bind st first_part (obx self), Bind st last_part (oty self),
                   Bind st thread_level (otx self)]))))))"

definition tiling :: primitive where
  "tiling self op_id op sch X =
     (if op = main_op self then tiling_main_op self op_id op sch X
      else if op = output_op self then tiling_output_op self op_id op sch X
      else
        and_then (py_index (op_lst (target_dag self)) (- 1)) (\<lambda>last_op.
        if op = last_op then tiling_last_op self op_id op sch X
        else Inr (self, sch)))"

definition set_tensorize_iter ::
  "CUDAScheduleApplier \<Rightarrow> Operation \<Rightarrow> schedule \<Rightarrow> (Operation \<Rightarrow> Operation)
     \<Rightarrow> error + CUDAScheduleApplier \<times> schedule" where
  "set_tensorize_iter self op sch X =
     and_then (lookup (reserve_inner_axis_count (recipe_stage self)) op) (\<lambda>n.
     and_then (py_index (axis (X op)) (- int n)) (\<lambda>t.
     Inr (self\<lparr>state := (state self)
                \<lparr>tensorize_iter := (tensorize_iter (state self))(op \<mapsto> t)\<rparr>\<rparr>,
          sch)))"

definition compute_at :: primitive where
  "compute_at self op_id op sch X =
     (if operation_role (recipe_stage self) op = None then Inr (self, sch)
      else if op_id < main_op_id self then
        and_then (get_main_op_second_outermost_last_reduce_axis self) (\<lambda>ax.
        set_tensorize_iter self op
          (sch @ [ComputeAt (OpStage (X op)) (OpStage (X (main_op self))) ax]) X)
      else if main_op_id self < op_id \<and> op_id < output_op_id self then
        and_then (get_output_op_third_innermost_last_axis self) (\<lambda>ax.
        set_tensorize_iter self op
          (sch @ [ComputeAt (OpStage (X op)) (OpStage (X (output_op self))) ax]) X)
      else Inr (self, sch))"

definition unroll :: primitive where
  "unroll self op_id op sch X =
     (if op = output_op self then
        and_then (get_output_op_outermost_last_axis self) (\<lambda>ax.
        and_then (get_output_op_unroll_step self) (\<lambda>step.
        Inr (self, sch @ [Pragma (OpStage (X op)) ax ''auto_unroll_max_step'' step])))
      else if op = main_op self then
        and_then (get_main_op_outermost_last_reduce_axis self) (\<lambda>ax.
        and_then (get_output_op_unroll_step self) (\<lambda>step.
        Inr (self, sch @ [Pragma (OpStage (X op)) ax ''auto_unroll_max_step'' step])))
      else
        and_then (py_index (op_lst (target_dag self)) (- 1)) (\<lambda>last_op.
        if op = last_op then
          and_then (get_last_op_outermost_last_axis self) (\<lambda>ax.
          and_then (get_last_op_unroll_step self) (\<lambda>step.
          Inr (self, sch @ [Pragma (OpStage (X op)) ax ''auto_unroll_max_step'' step])))
        else Inr (self, sch)))"

definition tensorize :: primitive where
  "tensorize self op_id op sch X =
     (if operation_role (recipe_stage self) op = None then Inr (self, sch)
      else
        and_then (lookup (capsule_key (recipe_stage self)) op) (\<lambda>key.
        let intrin = Intrinsic (compute_key self) (shape_key self) key in
        and_then (get_tensorize_iter self op) (\<lambda>ax.
        Inr (self, sch @ [Tensorize (OpStage (X op)) ax intrin]))))"

subsection \<open>apply\<close>

fun run_primitives ::
  "primitive list \<Rightarrow> CUDAScheduleApplier \<Rightarrow> int \<Rightarrow> Operation \<Rightarrow> schedule
     \<Rightarrow> (Operation \<Rightarrow> Operation) \<Rightarrow> error + CUDAScheduleApplier \<times> schedule" where
  "run_primitives [] self op_id op sch X = Inr (self, sch)"
| "run_primitives (prim # prims) self op_id op sch X =
     and_then (prim self op_id op sch X) (\<lambda>r.
     run_primitives prims (fst r) op_id op (snd r) X)"

fun apply_loop ::
  "primitive list \<Rightarrow> nat \<Rightarrow> (nat \<times> Operation) list \<Rightarrow> CUDAScheduleApplier \<Rightarrow> schedule
     \<Rightarrow> (Operation \<Rightarrow> Operation) \<Rightarrow> error + CUDAScheduleApplier \<times> schedule" where
  "apply_loop primitives total_op [] self sch X = Inr (self, sch)"
| "apply_loop primitives total_op (iop # rest) self sch X =
     (if \<not> is_ComputeOp (snd iop) then apply_loop primitives total_op rest self sch X
      else
        and_then
          (run_primitives primitives self (int total_op - int (fst iop) - 1) (snd iop) sch X)
          (\<lambda>r. apply_loop primitives total_op rest (fst r) (snd r) X))"

text \<open>
  \<open>apply\<close> stores the parameters, resets the state, and visits the operations
  in reverse order. It returns the schedule; the result of the model also
  carries the applier, whose state the call leaves behind.
\<close>

definition applier_apply ::
  "CUDAScheduleApplier \<Rightarrow> schedule \<Rightarrow> Params \<Rightarrow> (Operation \<Rightarrow> Operation)
     \<Rightarrow> error + CUDAScheduleApplier \<times> schedule" where
  "applier_apply self sch ps X =
     (let primitives = [inline, cache_read, set_scope, tiling, compute_at, unroll, tensorize];
          self1 = initialize_parameters self ps;
          ready = check_parameter_ready self1;
          self2 = initialize_state self1;
          dag = target_dag self2;
          total_op = length (op_lst dag)
      in apply_loop primitives total_op (List.enumerate 0 (rev (op_lst dag))) self2 sch X)"

subsection \<open>An example graph for the applier\<close>

text \<open>
  A matrix multiplication mapped to a 16x16x16 instruction: a padded input
  feeds one of the two load operations, the main operation reduces over
  \<open>k\<close> and the reserved \<open>kk\<close>, the output operation stores the result, and an
  elementwise operation ends the graph. The last two axes of the role-bearing
  operations are reserved.
\<close>

definition placeholder_B :: Operation where
  "placeholder_B = \<lparr>op_name = ''B'', is_ComputeOp = False, axis = [], reduce_axis = []\<rparr>"

definition pad_op :: Operation where
  "pad_op =
     \<lparr>op_name = ''pad'', is_ComputeOp = True,
      axis = [IterVar ''p0'', IterVar ''p1'', IterVar ''p2'', IterVar ''p3''],
      reduce_axis = []\<rparr>"

definition load_a_op :: Operation where
  "load_a_op =
     \<lparr>op_name = ''load_a'', is_ComputeOp = True,
      axis = [IterVar ''a0'', IterVar ''a1'', IterVar ''a2'', IterVar ''a3''],
      reduce_axis = []\<rparr>"

definition load_b_op :: Operation where
  "load_b_op =
     \<lparr>op_name = ''load_b'', is_ComputeOp = True,
      axis = [IterVar ''b0'', IterVar ''b1'', IterVar ''b2'', IterVar ''b3''],
      reduce_axis = []\<rparr>"

definition mma_op :: Operation where
  "mma_op =
     \<lparr>op_name = ''mma'', is_ComputeOp = True,
      axis = [IterVar ''i'', IterVar ''j'', IterVar ''ii'', IterVar ''jj''],
      reduce_axis = [IterVar ''k'', IterVar ''kk'']\<rparr>"

definition store_op :: Operation where
  "store_op =
     \<lparr>op_name = ''store'', is_ComputeOp = True,
      axis = [IterVar ''s0'', IterVar ''s1'', IterVar ''s2'', IterVar ''s3''],
      reduce_axis = []\<rparr>"

definition bias_op :: Operation where
  "bias_op =
     \<lparr>op_name = ''bias'', is_ComputeOp = True,
      axis = [IterVar ''e0'', IterVar ''e1''],
      reduce_axis = []\<rparr>"

definition example_dag :: ComputeDAG where
  "example_dag =
     \<lparr>op_lst = [placeholder_A, placeholder_B, pad_op, load_a_op, load_b_op, mma_op,
                store_op, bias_op],
      feed_graph =
        [placeholder_A \<mapsto> [pad_op], placeholder_B \<mapsto> [load_b_op], pad_op \<mapsto> [load_a_op],
         load_a_op \<mapsto> [mma_op], load_b_op \<mapsto> [mma_op], mma_op \<mapsto> [store_op],
         store_op \<mapsto> [bias_op]]\<rparr>"

definition example_recipe_stage :: RecipeStage where
  "example_recipe_stage =
     \<lparr>operation_role =
        [load_a_op \<mapsto> role_load_op, load_b_op \<mapsto> role_load_op, mma_op \<mapsto> role_main_op,
         store_op \<mapsto> role_output_op],
      reserve_inner_axis_count = [load_a_op \<mapsto> 2, load_b_op \<mapsto> 2, mma_op \<mapsto> 2, store_op \<mapsto> 2],
      main_op_reserve_reduce_axis = [1],
      capsule_key =
        [load_a_op \<mapsto> ''load_a'', load_b_op \<mapsto> ''load_b'', mma_op \<mapsto> ''mma'',
         store_op \<mapsto> ''store''],
      instruction_scope = scope_warp\<rparr>"

definition example_applier :: CUDAScheduleApplier where
  "example_applier =
     CUDAScheduleApplier_init ''nnn'' ''16x16x16'' example_dag mma_op store_op 5 6
       example_recipe_stage"

text \<open>
  The three tiles of an axis split by a factorization into three parts
  \<open>[f0, f1, f2]\<close>, outermost first.
\<close>

definition tile_levels :: "iter_var \<Rightarrow> int list \<Rightarrow> iter_var list" where
  "tile_levels iv fs =
     [SplitOuter (SplitOuter iv (fs ! 2)) (fs ! 1),
      SplitInner (SplitOuter iv (fs ! 2)) (fs ! 1),
      SplitInner iv (fs ! 2)]"

definition tile_level :: "nat \<Rightarrow> iter_var list \<Rightarrow> split_choice list \<Rightarrow> iter_var list" where
  "tile_level k ivs choices = map (\<lambda>p. tile_levels (fst p) (fst (snd p)) ! k) (zip ivs choices)"

text \<open>
  The example applier with the parameters stored and the state as the tiling
  of the output operation leaves it: two fused tile levels, the third tile
  level, and the reserved axes.
\<close>

definition tiled_output_applier :: CUDAScheduleApplier where
  "tiled_output_applier =
     example_applier
       \<lparr>state := empty_state
          \<lparr>output_op_axis :=
             [[Fused (tile_level 0 [IterVar ''s0'', IterVar ''s1''] (spatial_factors example_record))],
              [Fused (tile_level 1 [IterVar ''s0'', IterVar ''s1''] (spatial_factors example_record))],
              tile_level 2 [IterVar ''s0'', IterVar ''s1''] (spatial_factors example_record),
              [IterVar ''s2'', IterVar ''s3'']]\<rparr>,
        params := example_record\<rparr>"

text \<open>
  The schedule that \<open>apply\<close> builds for the example graph with
  \<open>example_record\<close>, traced by hand through the source: the operations in
  reverse order, the seven primitives on each.
\<close>

definition bias_fused :: iter_var where
  "bias_fused = Fused [IterVar ''e0'', IterVar ''e1'']"

definition store_block :: iter_var where
  "store_block =
     Fused [SplitOuter (SplitOuter (IterVar ''s0'') 8) 4,
            SplitOuter (SplitOuter (IterVar ''s1'') 8) 2]"

definition store_warp :: iter_var where
  "store_warp =
     Fused [SplitInner (SplitOuter (IterVar ''s0'') 8) 4,
            SplitInner (SplitOuter (IterVar ''s1'') 8) 2]"

definition pad_fused :: iter_var where
  "pad_fused =
     Fused [CacheAxis ''pad'' 0, CacheAxis ''pad'' 1, CacheAxis ''pad'' 2, CacheAxis ''pad'' 3]"

definition example_schedule :: schedule where
  "example_schedule =
     [Fuse (OpStage bias_op) [IterVar ''e0'', IterVar ''e1''],
      Split (OpStage bias_op) bias_fused 32,
      Split (OpStage bias_op) (SplitOuter bias_fused 32) 32,
      Bind (OpStage bias_op) (SplitOuter (SplitOuter bias_fused 32) 32) (ThreadAxis ''blockIdx.x''),
      Bind (OpStage bias_op) (SplitInner (SplitOuter bias_fused 32) 32) (ThreadAxis ''threadIdx.y''),
      Bind (OpStage bias_op) (SplitInner bias_fused 32) (ThreadAxis ''threadIdx.x''),
      Pragma (OpStage bias_op) (SplitOuter (SplitOuter bias_fused 32) 32)
        ''auto_unroll_max_step'' 512,
      Split (OpStage store_op) (IterVar ''s0'') 8,
      Split (OpStage store_op) (SplitOuter (IterVar ''s0'') 8) 4,
      Split (OpStage store_op) (IterVar ''s1'') 8,
      Split (OpStage store_op) (SplitOuter (IterVar ''s1'') 8) 2,
      Reorder (OpStage store_op)
        [SplitOuter (SplitOuter (IterVar ''s0'') 8) 4,
         SplitOuter (SplitOuter (IterVar ''s1'') 8) 2,
         SplitInner (SplitOuter (IterVar ''s0'') 8) 4,
         SplitInner (SplitOuter (IterVar ''s1'') 8) 2,
         SplitInner (IterVar ''s0'') 8,
         SplitInner (IterVar ''s1'') 8,
         IterVar ''s2'', IterVar ''s3''],
      Fuse (OpStage store_op)
        [SplitOuter (SplitOuter (IterVar ''s0'') 8) 4,
         SplitOuter (SplitOuter (IterVar ''s1'') 8) 2],
      Fuse (OpStage store_op)
        [SplitInner (SplitOuter (IterVar ''s0'') 8) 4,
         SplitInner (SplitOuter (IterVar ''s1'') 8) 2],
      Bind (OpStage store_op) store_block (ThreadAxis ''blockIdx.x''),
      Bind (OpStage store_op) store_warp (ThreadAxis ''threadIdx.y''),
      Pragma (OpStage store_op) store_block ''auto_unroll_max_step'' 64,
      Tensorize (OpStage store_op) (IterVar ''s2'') (Intrinsic ''nnn'' ''16x16x16'' ''store''),
      SetScope (OpStage mma_op) ''local'',
      ComputeAt (OpStage mma_op) (OpStage store_op) store_warp,
      Split (OpStage mma_op) (IterVar ''k'') 4,
      Split (OpStage mma_op) (SplitOuter (IterVar ''k'') 4) 4,
      Reorder (OpStage mma_op)
        [SplitOuter (SplitOuter (IterVar ''k'') 4) 4,
         SplitInner (SplitOuter (IterVar ''k'') 4) 4,
         IterVar ''i'', IterVar ''j'',
         SplitInner (IterVar ''k'') 4,
         IterVar ''ii'', IterVar ''jj'',
         IterVar ''kk''],
      Pragma (OpStage mma_op) (SplitOuter (SplitOuter (IterVar ''k'') 4) 4)
        ''auto_unroll_max_step'' 64,
      Tensorize (OpStage mma_op) (IterVar ''ii'') (Intrinsic ''nnn'' ''16x16x16'' ''mma''),
      SetScope (OpStage load_b_op) ''local'',
      ComputeAt (OpStage load_b_op) (OpStage mma_op) (SplitInner (SplitOuter (IterVar ''k'') 4) 4),
      Tensorize (OpStage load_b_op) (IterVar ''b2'') (Intrinsic ''nnn'' ''16x16x16'' ''load_b''),
      SetScope (OpStage load_a_op) ''local'',
      ComputeAt (OpStage load_a_op) (OpStage mma_op) (SplitInner (SplitOuter (IterVar ''k'') 4) 4),
      Tensorize (OpStage load_a_op) (IterVar ''a2'') (Intrinsic ''nnn'' ''16x16x16'' ''load_a''),
      ComputeInline (OpStage pad_op),
      CacheRead pad_op ''shared'' [load_a_op],
      ComputeAt (CacheStage pad_op) (OpStage mma_op) (SplitOuter (SplitOuter (IterVar ''k'') 4) 4),
      Fuse (CacheStage pad_op)
        [CacheAxis ''pad'' 0, CacheAxis ''pad'' 1, CacheAxis ''pad'' 2, CacheAxis ''pad'' 3],
      Split (CacheStage pad_op) pad_fused 4,
      Split (CacheStage pad_op) (SplitOuter pad_fused 4) 32,
      Split (CacheStage pad_op) (SplitOuter (SplitOuter pad_fused 4) 32) 8,
      Bind (CacheStage pad_op) (SplitInner (SplitOuter pad_fused 4) 32) (ThreadAxis ''threadIdx.x''),
      Bind (CacheStage pad_op) (SplitInner (SplitOuter (SplitOuter pad_fused 4) 32) 8)
        (ThreadAxis ''threadIdx.y''),
      Vectorize (CacheStage pad_op) (SplitInner pad_fused 4)]"

section \<open>Round trip of Params through its dict\<close>

lemma to_json_choice:
  "obj_choice (to_json p) ''vectorize'' = Inr (vectorize p)"
  "obj_choice (to_json p) ''output_unroll_step'' = Inr (output_unroll_step p)"
  "obj_choice (to_json p) ''last_unroll_step'' = Inr (last_unroll_step p)"
  by (simp_all add: obj_choice_def to_json_def)

lemma to_json_splits:
  "obj_splits (to_json p) ''spatial_factors'' = Inr (spatial_factors p)"
  "obj_splits (to_json p) ''reduce_factors'' = Inr (reduce_factors p)"
  "obj_splits (to_json p) ''last_factors'' = Inr (last_factors p)"
  by (simp_all add: obj_splits_def to_json_def)

text \<open>
  C5. For every Params record \<open>p\<close> (the six fields of the Python class and
  nothing else): reading the dict \<open>to_json p\<close> back, either with \<open>from_json\<close>
  called on any record \<open>q\<close> or with \<open>record_from_json\<close>, returns without an
  exception a record equal to \<open>p\<close>, and so equal to it in each of the six fields.
\<close>

theorem params_json_roundtrip:
  fixes p q :: Params
  shows "from_json q (to_json p) = Inr p \<and> record_from_json (to_json p) = Inr p"
  by (simp add: from_json_def record_from_json_def to_json_choice to_json_splits)

section \<open>Round trip of the generators' hidden indices\<close>

lemma dict_comp_distinct:
  "distinct (map fst kvs) \<Longrightarrow> dict_comp kvs k = Some v \<longleftrightarrow> (k, v) \<in> set kvs"
  by (simp add: dict_comp_def rev_map [symmetric])

lemma dict_comp_mem:
  assumes "(k, v) \<in> set kvs"
  shows "\<exists>v'. dict_comp kvs k = Some v' \<and> (k, v') \<in> set kvs"
proof -
  from assms have "(k, v) \<in> set (rev kvs)" by simp
  then obtain v' where "map_of (rev kvs) k = Some v'"
    using weak_map_of_SomeI by fastforce
  moreover from this have "(k, v') \<in> set kvs"
    using map_of_SomeD by fastforce
  ultimately show ?thesis by (auto simp: dict_comp_def)
qed

lemma index_roundtrip:
  assumes "x \<in> set ls"
  shows "\<exists>h. lookup (dict_comp (zip ls (map int [0 ..< length ls]))) x = Inr h
           \<and> lookup (dict_comp (zip (map int [0 ..< length ls]) ls)) h = Inr x"
proof -
  let ?chs = "map int [0 ..< length ls]"
  from assms obtain j where j: "j < length ls" "ls ! j = x"
    by (auto simp: in_set_conv_nth)
  then have "(x, int j) \<in> set (zip ls ?chs)"
    by (auto simp: set_zip)
  then obtain h where h: "dict_comp (zip ls ?chs) x = Some h" "(x, h) \<in> set (zip ls ?chs)"
    using dict_comp_mem by fastforce
  from h(2) obtain i where i: "i < length ls" "ls ! i = x" "h = int i"
    by (auto simp: set_zip)
  then have "(h, x) \<in> set (zip ?chs ls)"
    unfolding set_zip by (intro CollectI exI [of _ i]) simp
  moreover have "distinct (map fst (zip ?chs ls))"
    by (simp add: distinct_map inj_on_def)
  ultimately have "dict_comp (zip ?chs ls) h = Some x"
    by (simp add: dict_comp_distinct)
  with h(1) show ?thesis by (simp add: lookup_def)
qed

lemma swap_roundtrip:
  assumes d: "distinct (map fst fm)" and f: "f \<in> snd ` set fm"
  shows "\<exists>i. lookup (dict_comp (map (\<lambda>(x, y). (y, x)) fm)) f = Inr i
           \<and> lookup (map_of fm) i = Inr f"
proof -
  from f obtain i0 where "(i0, f) \<in> set fm" by auto
  then have "(f, i0) \<in> set (map (\<lambda>(x, y). (y, x)) fm)" by force
  then obtain i where i: "dict_comp (map (\<lambda>(x, y). (y, x)) fm) f = Some i"
      "(f, i) \<in> set (map (\<lambda>(x, y). (y, x)) fm)"
    using dict_comp_mem by fastforce
  from i(2) have "(i, f) \<in> set fm" by auto
  with d have "map_of fm i = Some f" by simp
  with i(1) show ?thesis by (simp add: lookup_def)
qed

lemma map_result_roundtrip:
  assumes "\<And>x. x \<in> set xs \<Longrightarrow> \<exists>h. f x = Inr h \<and> g h = Inr x"
  shows "\<exists>hs. map_result f xs = Inr hs \<and> map_result g hs = Inr xs"
  using assms
proof (induction xs)
  case Nil
  then show ?case by simp
next
  case (Cons x xs)
  then obtain hs where hs: "map_result f xs = Inr hs" "map_result g hs = Inr xs"
    by auto
  from Cons.prems obtain h where h: "f x = Inr h" "g h = Inr x"
    by auto
  from hs h show ?case by simp
qed

text \<open>
  C6. For each of the three generators and every element of its choice space,
  \<open>map_to_hidden\<close> returns a hidden value without raising and
  \<open>map_from_hidden\<close> of that hidden value returns the element again.
  The choice space of a split generator is the lists of factors that occur as
  values of \<open>factor_map\<close>, a dict (its keys are distinct); that of the
  vectorize generator is \<open>lengths\<close>, that of the unroll generator is
  \<open>steps\<close>.
\<close>

theorem hidden_roundtrip:
  "(distinct (map fst fm) \<and> set fs \<subseteq> snd ` set fm \<longrightarrow>
      (\<exists>h. sf_map_to_hidden (SplitFactorGenerator_init chs fm sv dirs) fs = Inr h
         \<and> sf_map_from_hidden (SplitFactorGenerator_init chs fm sv dirs) h = Inr fs))
   \<and> (l \<in> set ls \<longrightarrow>
        (\<exists>h. vl_map_to_hidden (VectorizeLengthGenerator_init ls) l = Inr h
           \<and> vl_map_from_hidden (VectorizeLengthGenerator_init ls) h = Inr l))
   \<and> (s \<in> set ss \<longrightarrow>
        (\<exists>h. us_map_to_hidden (UnrollStepGenerator_init ss) s = Inr h
           \<and> us_map_from_hidden (UnrollStepGenerator_init ss) h = Inr s))"
proof (intro conjI impI)
  assume a: "distinct (map fst fm) \<and> set fs \<subseteq> snd ` set fm"
  have "\<exists>hs. map_result (lookup (dict_comp (map (\<lambda>(x, y). (y, x)) fm))) fs = Inr hs
          \<and> map_result (lookup (map_of fm)) hs = Inr fs"
    using a by (intro map_result_roundtrip swap_roundtrip) auto
  then show "\<exists>h. sf_map_to_hidden (SplitFactorGenerator_init chs fm sv dirs) fs = Inr h
         \<and> sf_map_from_hidden (SplitFactorGenerator_init chs fm sv dirs) h = Inr fs"
    by (simp add: sf_map_to_hidden_def sf_map_from_hidden_def SplitFactorGenerator_init_def)
next
  assume "l \<in> set ls"
  then show "\<exists>h. vl_map_to_hidden (VectorizeLengthGenerator_init ls) l = Inr h
           \<and> vl_map_from_hidden (VectorizeLengthGenerator_init ls) h = Inr l"
    using index_roundtrip [of l ls]
    by (simp add: vl_map_to_hidden_def vl_map_from_hidden_def
        VectorizeLengthGenerator_init_def Let_def)
next
  assume "s \<in> set ss"
  then show "\<exists>h. us_map_to_hidden (UnrollStepGenerator_init ss) s = Inr h
           \<and> us_map_from_hidden (UnrollStepGenerator_init ss) h = Inr s"
    using index_roundtrip [of s ss]
    by (simp add: us_map_to_hidden_def us_map_from_hidden_def
        UnrollStepGenerator_init_def Let_def)
qed

theorem hidden_roundtrip_witness:
  "(\<exists>h. sf_map_to_hidden (SplitFactorGenerator_init [[0, 2], [1, 1], [2, 0]] [(0, 1), (1, 2), (2, 4)] 2 [[1], [-1]]) [2, 2] = Inr h
      \<and> sf_map_from_hidden (SplitFactorGenerator_init [[0, 2], [1, 1], [2, 0]] [(0, 1), (1, 2), (2, 4)] 2 [[1], [-1]]) h = Inr [2, 2])
   \<and> (\<exists>h. vl_map_to_hidden (VectorizeLengthGenerator_init [1, 2, 4]) 4 = Inr h
        \<and> vl_map_from_hidden (VectorizeLengthGenerator_init [1, 2, 4]) h = Inr 4)
   \<and> (\<exists>h. us_map_to_hidden (UnrollStepGenerator_init [16, 64, 512, 1500]) 512 = Inr h
        \<and> us_map_from_hidden (UnrollStepGenerator_init [16, 64, 512, 1500]) h = Inr 512)"
  using hidden_roundtrip [where fm = "[(0, 1), (1, 2), (2, 4)]" and fs = "[2, 2]" and l = 4
      and ls = "[1, 2, 4]" and s = 512 and ss = "[16, 64, 512, 1500]"
      and chs = "[[0, 2], [1, 1], [2, 0]]" and sv = 2 and dirs = "[[1], [-1]]"]
  by simp

section \<open>The validity check and the search loop: lemmas\<close>

lemma spatial_warp_num_Inr:
  "spatial_warp_num fs w = Inr v \<longleftrightarrow>
     list_all (\<lambda>f. 2 \<le> length (fst f)) fs \<and> v = w * prod_list (map (\<lambda>f. fst f ! 1) fs)"
proof (induction fs arbitrary: w)
  case Nil
  then show ?case by auto
next
  case (Cons f fs)
  show ?case
  proof (cases "2 \<le> length (fst f)")
    case True
    then have "index (fst f) 1 = Inr (fst f ! 1)" by (simp add: index_def)
    then show ?thesis using True Cons.IH by (simp add: mult.assoc)
  next
    case False
    then have "index (fst f) 1 = Inl IndexError" by (simp add: index_def)
    then show ?thesis using False by simp
  qed
qed

lemma valid_True_iff:
  "valid r = Inr True \<longleftrightarrow>
     list_all (\<lambda>f. 2 \<le> length (fst f)) (spatial_factors r)
     \<and> prod_list (map (\<lambda>f. fst f ! 1) (spatial_factors r)) \<le> 32
     \<and> last_factors r \<noteq> []
     \<and> 2 \<le> length (fst (last_factors r ! 0))
     \<and> fst (last_factors r ! 0) ! 1 \<le> 32"
proof (cases "spatial_warp_num (spatial_factors r) 1")
  case (Inl e)
  then have "\<not> list_all (\<lambda>f. 2 \<le> length (fst f)) (spatial_factors r)"
    using spatial_warp_num_Inr [of "spatial_factors r" 1] by auto
  with Inl show ?thesis by (simp add: valid_def)
next
  case (Inr w)
  then have w: "list_all (\<lambda>f. 2 \<le> length (fst f)) (spatial_factors r)"
      "w = prod_list (map (\<lambda>f. fst f ! 1) (spatial_factors r))"
    using spatial_warp_num_Inr [of "spatial_factors r" 1 w] by auto
  show ?thesis
    using Inr w by (auto simp: valid_def index_def)
qed

lemma get_loop_Record_valid:
  "get_loop lt dumps g policy repeat draws n i = Inr (Record r, g') \<Longrightarrow> valid r = Inr True"
proof (induction n arbitrary: i)
  case 0
  then show ?case by (auto split: sum.splits)
next
  case (Suc n)
  then show ?case
    by (auto split: sum.splits candidate.splits if_splits bool.splits)
qed

lemma valid_example_record: "valid example_record = Inr True"
  by (simp add: valid_def example_record_def index_def)

lemma valid_wide_record: "valid wide_record = Inr False"
  by (simp add: valid_def wide_record_def example_record_def index_def)

lemma get_loop_pos:
  assumes "0 < n"
  shows "get_loop lt dumps self policy repeat draws n i =
       (case make_candidate lt self policy (draws i) of
          Inl e \<Rightarrow> Inl e
        | Inr (ArchiveHead e0) \<Rightarrow> Inr (Archived e0, self)
        | Inr (Candidate record) \<Rightarrow>
            if repeat \<or> str_of dumps record \<notin> visited self then
              (case valid record of
                 Inl e \<Rightarrow> Inl e
               | Inr True \<Rightarrow>
                   Inr (Record record,
                        self\<lparr>visited := insert (str_of dumps record) (visited self)\<rparr>)
               | Inr False \<Rightarrow> get_loop lt dumps self policy repeat draws (n - 1) (Suc i))
            else get_loop lt dumps self policy repeat draws (n - 1) (Suc i))"
proof (cases n)
  case 0
  then show ?thesis using assms by simp
next
  case (Suc m)
  show ?thesis unfolding Suc by (simp only: get_loop.simps diff_Suc_1)
qed

lemma get_loop_rejected:
  assumes "\<forall>j. i \<le> j \<and> j < i + n \<longrightarrow> rejected lt dumps g policy repeat (draws j)"
  shows "get_loop lt dumps g policy repeat draws n i =
           (case entries g of [] \<Rightarrow> Inl IndexError | e0 # _ \<Rightarrow> Inr (Archived e0, g))"
  using assms
proof (induction n arbitrary: i)
  case 0
  show ?case by (simp add: index_def split: list.splits)
next
  case (Suc n)
  from Suc.prems have r: "rejected lt dumps g policy repeat (draws i)" by simp
  from Suc.prems have "\<forall>j. Suc i \<le> j \<and> j < Suc i + n \<longrightarrow> rejected lt dumps g policy repeat (draws j)"
    by simp
  then have IH: "get_loop lt dumps g policy repeat draws n (Suc i) =
           (case entries g of [] \<Rightarrow> Inl IndexError | e0 # _ \<Rightarrow> Inr (Archived e0, g))"
    by (rule Suc.IH)
  from r obtain c0 where c: "make_candidate lt g policy (draws i) = Inr (Candidate c0)"
    and v: "if repeat \<or> str_of dumps c0 \<notin> visited g then valid c0 = Inr False else True"
    by (auto simp: rejected_def split: sum.splits candidate.splits)
  show ?case
  proof (cases "repeat \<or> str_of dumps c0 \<notin> visited g")
    case True
    with v have "valid c0 = Inr False" by simp
    then show ?thesis
      by (simp only: get_loop.simps c sum.case candidate.case if_P [OF True] bool.case IH)
  next
    case False
    show ?thesis
      by (simp only: get_loop.simps c sum.case candidate.case if_not_P [OF False] IH if_False)
  qed
qed

lemma make_candidate_empty:
  "entries g = [] \<Longrightarrow> make_candidate lt g policy d = Inr (Candidate (rand_record d))"
  by (simp add: make_candidate_def)

lemma get_loop_empty_archive:
  assumes "entries g = []"
  shows "get_loop lt dumps g policy repeat draws n i
           = get_loop lt dumps g ''random'' repeat draws n i"
proof (induction n arbitrary: i)
  case 0
  show ?case by simp
next
  case (Suc n)
  show ?case
    by (simp only: get_loop.simps make_candidate_empty [OF assms] Suc.IH)
qed


lemma make_candidate_random:
  "make_candidate lt g ''random'' d = Inr (Candidate (rand_record d))"
  by (simp add: make_candidate_def)

lemma rejected_wide:
  "rejected lt json_dumps example_generator policy False (fixed_draw wide_record)"
  "rejected lt json_dumps archived_generator ''random'' False (fixed_draw wide_record)"
  by (simp_all add: rejected_def make_candidate_def fixed_draw_def valid_wide_record
      example_generator_def archived_generator_def)

text \<open>
  Two calls with \<open>policy="random"\<close> and \<open>repeat=False\<close>: a call whose
  first draw is a valid record not yet visited returns it and marks it
  visited; a call all of whose draws assemble a record already visited
  rejects every trial and falls through to \<open>self.entries[0]\<close>.
\<close>

lemma get_first:
  assumes "rand_record (draws 0) = r" and "valid r = Inr True"
    and "str_of dumps r \<notin> visited g" and "0 < max_trial"
  shows "get lt dumps g ''random'' False max_trial draws
           = Inr (Record r, g\<lparr>visited := insert (str_of dumps r) (visited g)\<rparr>)"
  using assms by (simp add: get_def get_loop_pos make_candidate_random)

lemma get_duplicate:
  assumes "\<forall>i. rand_record (draws i) = r" and "str_of dumps r \<in> visited g"
  shows "get lt dumps g ''random'' False max_trial draws
           = (case entries g of [] \<Rightarrow> Inl IndexError | e0 # _ \<Rightarrow> Inr (Archived e0, g))"
  unfolding get_def
  by (rule get_loop_rejected) (simp add: rejected_def make_candidate_random assms)

section \<open>The archive is a heap\<close>

lemma swo_irrefl: "strict_weak_order lt \<Longrightarrow> \<not> lt a a"
  by (simp add: strict_weak_order_def)

lemma swo_trans: "strict_weak_order lt \<Longrightarrow> lt a b \<Longrightarrow> lt b c \<Longrightarrow> lt a c"
  unfolding strict_weak_order_def by blast

lemma swo_neg_trans: "strict_weak_order lt \<Longrightarrow> \<not> lt a b \<Longrightarrow> \<not> lt b c \<Longrightarrow> \<not> lt a c"
  unfolding strict_weak_order_def by blast

lemma swo_asym: "strict_weak_order lt \<Longrightarrow> lt a b \<Longrightarrow> \<not> lt b a"
  using swo_irrefl swo_trans by metis

lemma parent_less: "0 < (i::nat) \<Longrightarrow> (i - 1) div 2 < i"
  by arith

lemma heap_root_least:
  assumes "strict_weak_order lt" and "is_heap lt h" and "i < length h"
  shows "\<not> lt (h ! i) (h ! 0)"
  using assms(3)
proof (induction i rule: less_induct)
  case (less i)
  show ?case
  proof (cases "i = 0")
    case True
    with assms(1) show ?thesis by (simp add: swo_irrefl)
  next
    case False
    then have p: "(i - 1) div 2 < i" by (simp add: parent_less)
    with less.prems have "(i - 1) div 2 < length h" by simp
    with less.IH p have "\<not> lt (h ! ((i - 1) div 2)) (h ! 0)" by simp
    moreover from assms(2) False less.prems have "\<not> lt (h ! i) (h ! ((i - 1) div 2))"
      by (simp add: is_heap_def)
    ultimately show ?thesis using assms(1) swo_neg_trans by metis
  qed
qed

lemma siftdown_heap:
  assumes swo: "strict_weak_order lt"
    and "pos < length h"
    and "\<forall>i. 0 < i \<and> i < length h \<and> i \<noteq> pos \<longrightarrow> \<not> lt (h ! i) (h ! ((i - 1) div 2))"
    and "\<forall>c. 0 < c \<and> c < length h \<and> (c - 1) div 2 = pos \<longrightarrow> \<not> lt (h ! c) newitem"
    and "0 < pos \<longrightarrow>
           (\<forall>c. 0 < c \<and> c < length h \<and> (c - 1) div 2 = pos \<longrightarrow>
                \<not> lt (h ! c) (h ! ((pos - 1) div 2)))"
  shows "is_heap lt (siftdown lt h newitem 0 pos)"
  using assms(2-)
proof (induction pos arbitrary: h rule: less_induct)
  case (less pos)
  let ?pp = "(pos - 1) div 2"
  let ?p = "h ! ?pp"
  note J1 = less.prems(2) and J2 = less.prems(3) and J3 = less.prems(4)
  show ?case
  proof (cases "0 < pos \<and> lt newitem ?p")
    case True
    then have pos: "0 < pos" and lt: "lt newitem ?p" by simp_all
    from pos have pp: "?pp < pos" by (rule parent_less)
    let ?h = "h[pos := ?p]"
    have len: "length ?h = length h" by simp
    have ppl: "?pp < length ?h" using pp less.prems(1) by simp
    have nth: "\<And>i. i \<noteq> pos \<Longrightarrow> ?h ! i = h ! i" by simp
    have nthp: "?h ! pos = ?p" using less.prems(1) by simp
    have K1: "\<forall>i. 0 < i \<and> i < length ?h \<and> i \<noteq> ?pp \<longrightarrow> \<not> lt (?h ! i) (?h ! ((i - 1) div 2))"
    proof (intro allI impI)
      fix i assume i: "0 < i \<and> i < length ?h \<and> i \<noteq> ?pp"
      show "\<not> lt (?h ! i) (?h ! ((i - 1) div 2))"
      proof (cases "i = pos")
        case True
        then show ?thesis using nthp nth [of ?pp] pp swo by (simp add: swo_irrefl)
      next
        case ip: False
        show ?thesis
        proof (cases "(i - 1) div 2 = pos")
          case True
          with J3 pos i have "\<not> lt (h ! i) ?p" by simp
          with True ip nthp show ?thesis by simp
        next
          case False
          with J1 i ip show ?thesis by simp
        qed
      qed
    qed
    have K2: "\<forall>c. 0 < c \<and> c < length ?h \<and> (c - 1) div 2 = ?pp \<longrightarrow> \<not> lt (?h ! c) newitem"
    proof (intro allI impI)
      fix c assume c: "0 < c \<and> c < length ?h \<and> (c - 1) div 2 = ?pp"
      show "\<not> lt (?h ! c) newitem"
      proof (cases "c = pos")
        case True
        then show ?thesis using nthp lt swo by (simp add: swo_asym)
      next
        case False
        with J1 [rule_format, of c] c have "\<not> lt (h ! c) ?p" by simp
        with lt swo have "\<not> lt (h ! c) newitem" using swo_trans by metis
        with False show ?thesis by simp
      qed
    qed
    have K3: "0 < ?pp \<longrightarrow>
           (\<forall>c. 0 < c \<and> c < length ?h \<and> (c - 1) div 2 = ?pp \<longrightarrow>
                \<not> lt (?h ! c) (?h ! ((?pp - 1) div 2)))"
    proof (intro allI impI)
      fix c assume p0: "0 < ?pp" and c: "0 < c \<and> c < length ?h \<and> (c - 1) div 2 = ?pp"
      from p0 have gp: "(?pp - 1) div 2 < ?pp" by (rule parent_less)
      with pp have gpn: "(?pp - 1) div 2 \<noteq> pos" by simp
      from J1 p0 pp less.prems(1) have a: "\<not> lt ?p (h ! ((?pp - 1) div 2))" by simp
      show "\<not> lt (?h ! c) (?h ! ((?pp - 1) div 2))"
      proof (cases "c = pos")
        case True
        with a nthp gpn show ?thesis by simp
      next
        case False
        with J1 [rule_format, of c] c have "\<not> lt (h ! c) ?p" by simp
        with a swo have "\<not> lt (h ! c) (h ! ((?pp - 1) div 2))" using swo_neg_trans by metis
        with False gpn show ?thesis by simp
      qed
    qed
    have "is_heap lt (siftdown lt ?h newitem 0 ?pp)"
      using pp ppl K1 K2 K3 by (rule less.IH)
    moreover have "siftdown lt h newitem 0 pos = siftdown lt ?h newitem 0 ?pp"
      using True by (subst siftdown.simps) simp
    ultimately show ?thesis by simp
  next
    case False
    then have r: "siftdown lt h newitem 0 pos = h[pos := newitem]"
      by (subst siftdown.simps) auto
    have "is_heap lt (h[pos := newitem])"
      unfolding is_heap_def
    proof (intro allI impI)
      fix i assume i: "0 < i \<and> i < length (h[pos := newitem])"
      show "\<not> lt (h[pos := newitem] ! i) (h[pos := newitem] ! ((i - 1) div 2))"
      proof (cases "i = pos")
        case True
        with i have "(i - 1) div 2 \<noteq> pos" using parent_less [of i] by simp
        with True i False less.prems(1) show ?thesis by simp
      next
        case ip: False
        show ?thesis
        proof (cases "(i - 1) div 2 = pos")
          case True
          with J2 i have "\<not> lt (h ! i) newitem" by simp
          with True ip less.prems(1) show ?thesis by simp
        next
          case False
          with J1 i ip show ?thesis by simp
        qed
      qed
    qed
    with r show ?thesis by simp
  qed
qed

lemma heappush_heap:
  assumes "strict_weak_order lt" and "is_heap lt h"
  shows "is_heap lt (heappush lt h item)"
  unfolding heappush_def
proof (rule siftdown_heap [OF assms(1)])
  show "length h < length (h @ [item])" by simp
  show "\<forall>i. 0 < i \<and> i < length (h @ [item]) \<and> i \<noteq> length h \<longrightarrow>
          \<not> lt ((h @ [item]) ! i) ((h @ [item]) ! ((i - 1) div 2))"
  proof (intro allI impI)
    fix i assume i: "0 < i \<and> i < length (h @ [item]) \<and> i \<noteq> length h"
    then have il: "i < length h" by simp
    with i have "(i - 1) div 2 < length h" using parent_less [of i] by simp
    with il assms(2) i show "\<not> lt ((h @ [item]) ! i) ((h @ [item]) ! ((i - 1) div 2))"
      by (simp add: is_heap_def nth_append)
  qed
  show "\<forall>c. 0 < c \<and> c < length (h @ [item]) \<and> (c - 1) div 2 = length h \<longrightarrow>
          \<not> lt ((h @ [item]) ! c) item"
  proof (intro allI impI)
    fix c assume c: "0 < c \<and> c < length (h @ [item]) \<and> (c - 1) div 2 = length h"
    then have "0 < c \<and> c < Suc (length h) \<and> (c - 1) div 2 = length h" by simp
    then have False by arith
    then show "\<not> lt ((h @ [item]) ! c) item" ..
  qed
  show "0 < length h \<longrightarrow>
          (\<forall>c. 0 < c \<and> c < length (h @ [item]) \<and> (c - 1) div 2 = length h \<longrightarrow>
               \<not> lt ((h @ [item]) ! c) ((h @ [item]) ! ((length h - 1) div 2)))"
  proof (intro allI impI)
    fix c assume c: "0 < c \<and> c < length (h @ [item]) \<and> (c - 1) div 2 = length h"
    then have "0 < c \<and> c < Suc (length h) \<and> (c - 1) div 2 = length h" by simp
    then have False by arith
    then show "\<not> lt ((h @ [item]) ! c) ((h @ [item]) ! ((length h - 1) div 2))" ..
  qed
qed

lemma feedback_heap:
  assumes "strict_weak_order lt" and "is_heap lt (entries g)" and "feedback lt g r v = Inr g'"
  shows "is_heap lt (entries g')"
  using assms heappush_heap [OF assms(1,2)]
  by (auto simp: feedback_def Let_def split: if_splits)

lemma is_heap_Nil: "is_heap lt []"
  by (simp add: is_heap_def)

lemma lt_by_value_order: "strict_weak_order lt_by_value"
  by (auto simp: strict_weak_order_def lt_by_value_def)

section \<open>The validity check and the search loop: properties\<close>

text \<open>
  C3. \<open>valid\<close> returns \<open>True\<close> exactly when every spatial factor tuple has a
  second entry and the product of these entries is at most 32, and the first
  tuple of \<open>last_factors\<close> exists, has a second entry, and that entry is at most
  32. Every record that \<open>get\<close> returns passed this check.
\<close>

theorem valid_check:
  "(valid r = Inr True \<longleftrightarrow>
      list_all (\<lambda>f. 2 \<le> length (fst f)) (spatial_factors r)
      \<and> prod_list (map (\<lambda>f. fst f ! 1) (spatial_factors r)) \<le> 32
      \<and> last_factors r \<noteq> []
      \<and> 2 \<le> length (fst (last_factors r ! 0))
      \<and> fst (last_factors r ! 0) ! 1 \<le> 32)
   \<and> (get lt dumps g policy repeat max_trial draws = Inr (Record r', g') \<longrightarrow>
        valid r' = Inr True)"
  using valid_True_iff [of r]
    get_loop_Record_valid [of lt dumps g policy repeat draws "nat max_trial" 0 r' g']
  by (simp add: get_def)

theorem valid_check_witness:
  "get lt_by_value json_dumps example_generator ''random'' False 100
       (always (fixed_draw example_record))
     = Inr (Record example_record,
            example_generator\<lparr>visited := {str_of json_dumps example_record}\<rparr>)
   \<and> valid example_record = Inr True
   \<and> prod_list (map (\<lambda>f. fst f ! 1) (spatial_factors example_record)) = 8"
proof -
  have g: "get lt_by_value json_dumps example_generator ''random'' False 100
       (always (fixed_draw example_record))
     = Inr (Record example_record,
            example_generator\<lparr>visited := {str_of json_dumps example_record}\<rparr>)"
    by (simp add: get_def get_loop_pos make_candidate_def always_def fixed_draw_def
        valid_example_record example_generator_def)
  have p: "prod_list (map (\<lambda>f. fst f ! 1) (spatial_factors example_record)) = 8"
    by (simp add: example_record_def)
  from g p valid_check [of example_record lt_by_value json_dumps example_generator
      "''random''" False 100 "always (fixed_draw example_record)" example_record
      "example_generator\<lparr>visited := {str_of json_dumps example_record}\<rparr>"]
  show ?thesis by simp
qed

text \<open>
  C1, as stated, fails on an empty archive: with every trial rejected, \<open>get\<close>
  reads \<open>self.entries[0]\<close> and raises IndexError; it does not return the first
  candidate it assembled.
\<close>

theorem get_empty_archive_counterexample:
  "entries example_generator = []
   \<and> rejected lt_by_value json_dumps example_generator ''random'' False (fixed_draw wide_record)
   \<and> get lt_by_value json_dumps example_generator ''random'' False 100
        (always (fixed_draw wide_record)) = Inl IndexError"
proof -
  have "get_loop lt_by_value json_dumps example_generator ''random'' False
          (always (fixed_draw wide_record)) (nat 100) 0
        = (case entries example_generator of [] \<Rightarrow> Inl IndexError
           | e0 # _ \<Rightarrow> Inr (Archived e0, example_generator))"
    by (rule get_loop_rejected) (simp add: always_def rejected_wide)
  moreover have "entries example_generator = []"
    by (simp add: example_generator_def)
  ultimately show ?thesis
    by (simp add: get_def rejected_wide)
qed

text \<open>
  C1, amended. For every policy and every sequence of draws: when each of the
  \<open>max_trial\<close> trials is rejected (its candidate is a duplicate or fails
  \<open>valid\<close>) and the archive is not empty, \<open>get\<close> returns the head of the
  archive, \<open>self.entries[0]\<close>, and leaves the generator as it was. The head
  is the best archived entry in the order of the archive: when the archive is
  a heap, as \<open>feedback\<close> keeps it, no archived entry is less than the head.
\<close>

theorem get_exhausted:
  assumes "\<forall>i < nat max_trial. rejected lt dumps g policy repeat (draws i)"
    and "entries g = e0 # es"
  shows "get lt dumps g policy repeat max_trial draws = Inr (Archived e0, g)
         \<and> (strict_weak_order lt \<and> is_heap lt (entries g) \<longrightarrow>
              (\<forall>e \<in> set (entries g). \<not> lt e e0))"
proof
  have "get_loop lt dumps g policy repeat draws (nat max_trial) 0 =
           (case entries g of [] \<Rightarrow> Inl IndexError | e0 # _ \<Rightarrow> Inr (Archived e0, g))"
    using assms(1) by (intro get_loop_rejected) simp
  with assms(2) show "get lt dumps g policy repeat max_trial draws = Inr (Archived e0, g)"
    by (simp add: get_def)
next
  show "strict_weak_order lt \<and> is_heap lt (entries g) \<longrightarrow> (\<forall>e \<in> set (entries g). \<not> lt e e0)"
  proof (intro impI ballI)
    fix e
    assume h: "strict_weak_order lt \<and> is_heap lt (entries g)" and "e \<in> set (entries g)"
    then obtain i where "i < length (entries g)" and "entries g ! i = e"
      by (auto simp: in_set_conv_nth)
    with h heap_root_least [of lt "entries g" i] assms(2) show "\<not> lt e e0"
      by auto
  qed
qed

lemma rejected_wide_heap:
  "rejected lt json_dumps heap_generator ''random'' False (fixed_draw wide_record)"
  by (simp add: rejected_def make_candidate_def fixed_draw_def valid_wide_record
      example_generator_def heap_generator_def)

lemma heap_generator_feedback:
  "feedback lt_by_value archived_generator wide_record 4 = Inr heap_generator"
proof -
  have "siftdown lt_by_value [example_entry, low_entry] low_entry 0 (Suc 0)
          = [low_entry, example_entry]"
    by (simp add: siftdown.simps lt_by_value_def low_entry_def example_entry_def)
  then show ?thesis
    by (simp add: feedback_def Let_def heappush_def archived_generator_def heap_generator_def
        low_entry_def wide_record_def example_record_def)
qed

theorem get_exhausted_witness:
  "rejected lt_by_value json_dumps heap_generator ''random'' False (fixed_draw wide_record)
   \<and> get lt_by_value json_dumps heap_generator ''random'' False 100
        (always (fixed_draw wide_record)) = Inr (Archived low_entry, heap_generator)
   \<and> strict_weak_order lt_by_value
   \<and> is_heap lt_by_value (entries heap_generator)
   \<and> \<not> lt_by_value example_entry low_entry"
proof -
  have r: "\<forall>i < nat 100. rejected lt_by_value json_dumps heap_generator ''random'' False
          (always (fixed_draw wide_record) i)"
    by (simp add: always_def rejected_wide_heap)
  have e: "entries heap_generator = low_entry # [example_entry]"
    by (simp add: heap_generator_def)
  have h: "is_heap lt_by_value (entries heap_generator)"
    using heap_generator_feedback feedback_heap [OF lt_by_value_order, of archived_generator]
    by (simp add: archived_generator_def is_heap_def)
  from get_exhausted [OF r e] lt_by_value_order h show ?thesis
    by (simp add: rejected_wide_heap e)
qed

text \<open>
  C10, as stated, fails: with an empty archive and policy \<open>q\<close>, \<open>get\<close> does
  read the archive once every trial is rejected, and \<open>self.entries[0]\<close> raises
  IndexError.
\<close>

theorem get_q_empty_archive_counterexample:
  "entries example_generator = []
   \<and> get lt_by_value json_dumps example_generator ''q'' False 100
        (always (fixed_draw wide_record)) = Inl IndexError"
proof -
  have "get_loop lt_by_value json_dumps example_generator ''q'' False
          (always (fixed_draw wide_record)) (nat 100) 0
        = (case entries example_generator of [] \<Rightarrow> Inl IndexError
           | e0 # _ \<Rightarrow> Inr (Archived e0, example_generator))"
    by (rule get_loop_rejected) (simp add: always_def rejected_wide)
  then show ?thesis
    by (simp add: get_def example_generator_def)
qed

text \<open>
  C10, amended. With an empty archive, \<open>get\<close> under policy \<open>q\<close> assembles in
  every trial the candidate of the random draws, so \<open>sa_select_entry\<close> is
  never called, and it returns exactly what it returns under policy
  \<open>random\<close> for the same draws.
\<close>

theorem get_q_empty_archive:
  assumes "entries g = []"
  shows "make_candidate lt g ''q'' d = Inr (Candidate (rand_record d))
         \<and> get lt dumps g ''q'' repeat max_trial draws
             = get lt dumps g ''random'' repeat max_trial draws"
proof
  show "make_candidate lt g ''q'' d = Inr (Candidate (rand_record d))"
    using assms by (rule make_candidate_empty)
  show "get lt dumps g ''q'' repeat max_trial draws
             = get lt dumps g ''random'' repeat max_trial draws"
    unfolding get_def using assms by (rule get_loop_empty_archive)
qed

theorem get_q_empty_archive_witness:
  "make_candidate lt_by_value example_generator ''q'' (fixed_draw example_record)
       = Inr (Candidate example_record)
   \<and> get lt_by_value json_dumps example_generator ''q'' False 100
         (always (fixed_draw example_record))
       = Inr (Record example_record,
              example_generator\<lparr>visited := {str_of json_dumps example_record}\<rparr>)"
proof -
  have e: "entries example_generator = []"
    by (simp add: example_generator_def)
  have d: "rand_record (fixed_draw example_record) = example_record"
    by (simp add: fixed_draw_def)
  have r: "get lt_by_value json_dumps example_generator ''random'' False 100
         (always (fixed_draw example_record))
       = Inr (Record example_record,
              example_generator\<lparr>visited := insert (str_of json_dumps example_record)
                (visited example_generator)\<rparr>)"
    by (rule get_first)
      (simp_all add: always_def fixed_draw_def valid_example_record example_generator_def)
  have g: "example_generator\<lparr>visited := insert (str_of json_dumps example_record)
                (visited example_generator)\<rparr>
      = example_generator\<lparr>visited := {str_of json_dumps example_record}\<rparr>"
    by (simp add: example_generator_def)
  note th = get_q_empty_archive [OF e, of lt_by_value "fixed_draw example_record" json_dumps
      False 100 "always (fixed_draw example_record)"]
  from th d have "make_candidate lt_by_value example_generator ''q'' (fixed_draw example_record)
       = Inr (Candidate example_record)"
    by simp
  moreover from th r g have "get lt_by_value json_dumps example_generator ''q'' False 100
         (always (fixed_draw example_record))
       = Inr (Record example_record,
              example_generator\<lparr>visited := {str_of json_dumps example_record}\<rparr>)"
    by simp
  ultimately show ?thesis by blast
qed

section \<open>Exploitation sampling\<close>

lemma set_insert_desc: "set (insert_desc lt x ys) = insert x (set ys)"
  by (induction ys) auto

lemma sorted_insert_desc:
  assumes "strict_weak_order lt" and "sorted_wrt (\<lambda>a b. \<not> lt a b) ys"
  shows "sorted_wrt (\<lambda>a b. \<not> lt a b) (insert_desc lt x ys)"
  using assms(2)
proof (induction ys)
  case Nil
  show ?case by simp
next
  case (Cons y ys)
  show ?case
  proof (cases "lt x y")
    case True
    with assms(1) have "\<not> lt y x" by (simp add: swo_asym)
    with True Cons show ?thesis by (auto simp: set_insert_desc)
  next
    case False
    have "\<not> lt x z" if "z \<in> set ys" for z
    proof -
      from Cons.prems that have "\<not> lt y z" by simp
      with False assms(1) show ?thesis using swo_neg_trans by metis
    qed
    with False Cons.prems show ?thesis by auto
  qed
qed

lemma sorted_foldr_insert_desc:
  "strict_weak_order lt \<Longrightarrow> sorted_wrt (\<lambda>a b. \<not> lt a b) (foldr (insert_desc lt) xs [])"
  by (induction xs) (simp_all add: sorted_insert_desc)

lemma set_foldr_insert_desc: "set (foldr (insert_desc lt) xs []) = set xs"
  by (induction xs) (simp_all add: set_insert_desc)

text \<open>
  The first candidate of \<open>sa_select_entry\<close> is the greatest archived entry
  in the entries' order, the other end of the order from the head of the heap
  that \<open>get\<close> falls back to.
\<close>

lemma nlargest_head_greatest:
  assumes "strict_weak_order lt" and "index (nlargest lt n xs) 0 = Inr c" and "e \<in> set xs"
  shows "\<not> lt c e"
proof -
  let ?s = "foldr (insert_desc lt) xs []"
  from assms(2) have c: "?s \<noteq> []" "c = ?s ! 0"
    by (auto simp: index_def nlargest_def split: if_splits)
  then obtain t where s: "?s = c # t" by (cases ?s) auto
  from assms(3) have "e \<in> set ?s" by (simp add: set_foldr_insert_desc)
  with s have "e = c \<or> e \<in> set t" by auto
  moreover from sorted_foldr_insert_desc [OF assms(1), of xs] s
  have "\<forall>z \<in> set t. \<not> lt c z" by simp
  ultimately show ?thesis using assms(1) by (auto simp: swo_irrefl)
qed

lemma archive_ends_example:
  "index (entries heap_generator) 0 = Inr low_entry
   \<and> index (nlargest lt_by_value (min 20 (length (entries heap_generator)))
        (entries heap_generator)) 0 = Inr example_entry"
  by (simp add: heap_generator_def index_def nlargest_def lt_by_value_def low_entry_def
      example_entry_def)

text \<open>
  When no sample is accepted in \<open>max_num\<close> draws, \<open>sa_select_entry\<close> returns
  its first candidate.
\<close>

lemma sa_loop_none_accepted:
  assumes "\<forall>j. i \<le> j \<and> j < i + n \<longrightarrow>
             fst (draws j) < length ps \<and> \<not> snd (draws j) < ps ! fst (draws j)"
  shows "sa_loop cand ps draws n i = index cand 0"
  using assms
proof (induction n arbitrary: i)
  case 0
  show ?case by simp
next
  case (Suc n)
  from Suc.prems have d: "fst (draws i) < length ps" "\<not> snd (draws i) < ps ! fst (draws i)"
    by simp_all
  from Suc.prems have "\<forall>j. Suc i \<le> j \<and> j < Suc i + n \<longrightarrow>
             fst (draws j) < length ps \<and> \<not> snd (draws j) < ps ! fst (draws j)"
    by simp
  then have "sa_loop cand ps draws n (Suc i) = index cand 0" by (rule Suc.IH)
  with d show ?case by (simp add: index_def)
qed

lemma calculate_p_best: "calculate_p best best = 1"
  by (simp add: calculate_p_def)

lemma sa_loop_pos:
  assumes "0 < n"
  shows "sa_loop cand ps draws n i =
     (case index ps (fst (draws i)) of
        Inl e \<Rightarrow> Inl e
      | Inr p \<Rightarrow>
          if snd (draws i) < p then index cand i
          else sa_loop cand ps draws (n - 1) (Suc i))"
proof (cases n)
  case 0
  then show ?thesis using assms by simp
next
  case (Suc m)
  show ?thesis unfolding Suc by (simp only: sa_loop.simps diff_Suc_1)
qed

lemma nlargest_example:
  "2 \<le> n \<Longrightarrow>
     nlargest lt_by_value n [example_entry, other_entry] = [example_entry, other_entry]"
  by (simp add: nlargest_def lt_by_value_def example_entry_def other_entry_def)

lemma example_entries_differ: "example_entry \<noteq> other_entry"
  by (simp add: example_entry_def other_entry_def wide_record_def example_record_def)

text \<open>
  C2. Where a sample is accepted the code does not return it. With two
  archived entries of equal value, the first draw samples index 1
  (\<open>other_entry\<close>) and accepts it, since its weight is 1; the function
  returns \<open>cand[0]\<close>, the entry at the loop counter, which is
  \<open>example_entry\<close>.
\<close>

theorem sa_select_entry_returns_loop_index:
  "index (nlargest lt_by_value (min 20 2) [example_entry, other_entry]) (fst (always (1, 0) 0))
     = Inr other_entry
   \<and> snd (always (1, 0) 0) < calculate_p (entry_value other_entry) (entry_value example_entry)
   \<and> sa_select_entry lt_by_value (example_generator\<lparr>entries := [example_entry, other_entry]\<rparr>)
        20 (always (1, 0)) = Inr example_entry
   \<and> example_entry \<noteq> other_entry"
proof -
  have v: "entry_value other_entry = 5" "entry_value example_entry = 5"
    by (simp_all add: example_entry_def other_entry_def)
  have 1: "index (nlargest lt_by_value (min 20 2) [example_entry, other_entry])
             (fst (always (1, 0) 0)) = Inr other_entry"
    by (simp add: nlargest_example index_def always_def)
  have 2: "snd (always (1, 0) 0)
             < calculate_p (entry_value other_entry) (entry_value example_entry)"
    by (simp add: v calculate_p_best always_def)
  have "sa_loop [example_entry, other_entry] [1, 1] (always (1, 0)) 20 0
          = Inr example_entry"
    by (simp add: sa_loop_pos index_def always_def)
  then have 3: "sa_select_entry lt_by_value
          (example_generator\<lparr>entries := [example_entry, other_entry]\<rparr>) 20 (always (1, 0))
        = Inr example_entry"
    by (simp add: sa_select_entry_def index_def v calculate_p_best nlargest_example)
  from 1 2 3 example_entries_differ show ?thesis by blast
qed

lemma calculate_p_worse: "calculate_p 4 5 \<le> 9 / 10"
proof -
  have "1 + (1::real) \<le> exp 1" by (rule exp_ge_add_one_self)
  then have a: "exp (- 1) \<le> (1::real) / 2"
    by (simp add: exp_minus field_simps)
  have "(4 - 5) / 2 * (5 + 1 / 100000) \<le> - (1::real)" by simp
  then have "exp ((4 - 5) / 2 * (5 + 1 / 100000)) \<le> exp (- (1::real))"
    by (simp only: exp_le_cancel_iff)
  with a have "exp ((4 - 5) / 2 * (5 + 1 / 100000)) \<le> (9::real) / 10"
    by linarith
  then show ?thesis by (simp only: calculate_p_def)
qed

text \<open>
  The loop counter also runs past the candidates: with two entries, a sample
  accepted in the third iteration makes the function read \<open>cand[2]\<close>.
\<close>

lemma sa_select_entry_index_error:
  "sa_select_entry lt_by_value (example_generator\<lparr>entries := [example_entry, low_entry]\<rparr>)
        20 (\<lambda>i. if i < 2 then (1, 9 / 10) else (0, 0)) = Inl IndexError"
proof -
  have n: "\<And>n. 2 \<le> n \<Longrightarrow> nlargest lt_by_value n [example_entry, low_entry]
             = [example_entry, low_entry]"
    by (simp add: nlargest_def lt_by_value_def example_entry_def low_entry_def)
  have v: "entry_value low_entry = 4" "entry_value example_entry = 5"
    by (simp_all add: example_entry_def low_entry_def)
  have p: "\<not> 9 / 10 < calculate_p 4 5" "\<not> 9 < calculate_p 4 5 * 10"
    using calculate_p_worse by linarith+
  have "sa_loop [example_entry, low_entry] [1, calculate_p 4 5]
          (\<lambda>i. if i < 2 then (1, 9 / 10) else (0, 0)) 20 0
        = Inl IndexError"
    by (simp add: sa_loop_pos index_def p)
  then show ?thesis
    by (simp add: sa_select_entry_def index_def v calculate_p_best n)
qed

section \<open>auto_schedule\<close>

lemma check_reduce_ops_Inr:
  "check_reduce_ops ops m = Inr () \<longleftrightarrow> (\<forall>op \<in> set ops. reduce_axis op \<noteq> [] \<longrightarrow> op = m)"
  by (induction ops) auto

lemma check_reduce_ops_Inl:
  "check_reduce_ops ops m \<noteq> Inr () \<Longrightarrow> \<exists>e. check_reduce_ops ops m = Inl e"
  by (cases "check_reduce_ops ops m") auto

lemma target_main_op_last:
  "target_main_op ts = (if main_op_map ts = [] then None else Some (snd (last (main_op_map ts))))"
proof -
  have "foldl (\<lambda>_ kv. Some (snd kv)) a kvs = (if kvs = [] then a else Some (snd (last kvs)))"
    for a :: "Operation option" and kvs :: "(Operation \<times> Operation) list"
    by (induction kvs arbitrary: a) auto
  then show ?thesis by (simp add: target_main_op_def)
qed

text \<open>
  C8. \<open>auto_schedule\<close> raises whenever the recipe's target is not \<open>"cuda"\<close>,
  and whenever some operation of the graph has a reduce axis and is not the
  main operation (the last value of \<open>main_op_map\<close>). When the main operation
  exists, every operation with a reduce axis is the main operation and the
  target is \<open>"cuda"\<close>, it returns without raising.
\<close>

theorem auto_schedule_raises:
  "(recipe_target \<noteq> ''cuda'' \<longrightarrow> (\<exists>e. auto_schedule recipe_target ts = Inl e))
   \<and> ((\<exists>op \<in> set (op_lst (ts_target_dag ts)).
          reduce_axis op \<noteq> [] \<and> target_main_op ts \<noteq> Some op) \<longrightarrow>
        (\<exists>e. auto_schedule recipe_target ts = Inl e))
   \<and> (target_main_op ts = Some m \<and> recipe_target = ''cuda''
        \<and> (\<forall>op \<in> set (op_lst (ts_target_dag ts)). reduce_axis op \<noteq> [] \<longrightarrow> op = m) \<longrightarrow>
        auto_schedule recipe_target ts = Inr ())"
proof (intro conjI impI)
  assume "recipe_target \<noteq> ''cuda''"
  then show "\<exists>e. auto_schedule recipe_target ts = Inl e"
    by (auto simp: auto_schedule_def split: option.splits sum.splits)
next
  assume a: "\<exists>op \<in> set (op_lst (ts_target_dag ts)).
          reduce_axis op \<noteq> [] \<and> target_main_op ts \<noteq> Some op"
  show "\<exists>e. auto_schedule recipe_target ts = Inl e"
  proof (cases "target_main_op ts")
    case None
    then show ?thesis by (simp add: auto_schedule_def)
  next
    case (Some m)
    with a have "check_reduce_ops (op_lst (ts_target_dag ts)) m \<noteq> Inr ()"
      by (auto simp: check_reduce_ops_Inr)
    then obtain e where "check_reduce_ops (op_lst (ts_target_dag ts)) m = Inl e"
      using check_reduce_ops_Inl by blast
    with Some show ?thesis by (simp add: auto_schedule_def)
  qed
next
  assume "target_main_op ts = Some m \<and> recipe_target = ''cuda''
        \<and> (\<forall>op \<in> set (op_lst (ts_target_dag ts)). reduce_axis op \<noteq> [] \<longrightarrow> op = m)"
  then show "auto_schedule recipe_target ts = Inr ()"
    using check_reduce_ops_Inr [of "op_lst (ts_target_dag ts)" m]
    by (simp add: auto_schedule_def)
qed

theorem auto_schedule_raises_witness:
  "(\<exists>e. auto_schedule ''llvm'' example_transform_state = Inl e)
   \<and> (\<exists>e. auto_schedule ''cuda'' two_reduce_transform_state = Inl e)
   \<and> auto_schedule ''cuda'' example_transform_state = Inr ()"
proof -
  have m: "target_main_op example_transform_state = Some gemm_op"
    "target_main_op two_reduce_transform_state = Some gemm_op"
    by (simp_all add: target_main_op_def example_transform_state_def
        two_reduce_transform_state_def)
  have r: "reduce_axis placeholder_A = []" "reduce_axis relu_op = []"
    "reduce_axis sum_op \<noteq> []" "sum_op \<noteq> gemm_op" "gemm_op \<noteq> sum_op"
    by (simp_all add: placeholder_A_def relu_op_def sum_op_def gemm_op_def)
  have o: "op_lst (ts_target_dag example_transform_state) = [placeholder_A, gemm_op, relu_op]"
    "op_lst (ts_target_dag two_reduce_transform_state) = [placeholder_A, gemm_op, sum_op]"
    by (simp_all add: example_transform_state_def two_reduce_transform_state_def)
  have "\<exists>e. auto_schedule ''llvm'' example_transform_state = Inl e"
    using auto_schedule_raises [of "''llvm''" example_transform_state gemm_op] by simp
  moreover have "\<exists>e. auto_schedule ''cuda'' two_reduce_transform_state = Inl e"
    using auto_schedule_raises [of "''cuda''" two_reduce_transform_state gemm_op]
    by (simp add: m o r)
  moreover have "auto_schedule ''cuda'' example_transform_state = Inr ()"
    using auto_schedule_raises [of "''cuda''" example_transform_state gemm_op]
    by (simp add: m o r)
  ultimately show ?thesis by blast
qed

section \<open>Tiling of the main operation\<close>

lemma and_then_Inr [simp]: "and_then (Inr x) f = f x"
  by (simp add: and_then_def)

lemma and_then_Inl [simp]: "and_then (Inl e) f = Inl e"
  by (simp add: and_then_def)

lemma and_then_eq_Inr:
  "and_then m f = Inr r \<longleftrightarrow> (\<exists>x. m = Inr x \<and> f x = Inr r)"
  by (cases m) simp_all

lemma py_assert_True [simp]: "b \<Longrightarrow> py_assert b = Inr ()"
  by (simp add: py_assert_def)

lemma split_by_factors_3:
  "length fs = 3 \<Longrightarrow>
     split_by_factors st iv fs sch
       = (tile_levels iv fs, sch @ [Split st iv (fs ! 2), Split st (SplitOuter iv (fs ! 2)) (fs ! 1)])"
proof -
  assume "length fs = 3"
  then obtain f0 f1 f2 where "fs = [f0, f1, f2]"
    by (metis (no_types, opaque_lifting) length_0_conv length_Suc_conv numeral_3_eq_3)
  then show ?thesis
    by (simp add: split_by_factors_def tile_levels_def)
qed

lemma split_axes_3:
  assumes "\<forall>p \<in> set ivfs. length (snd p) = 3"
  shows "fst (split_axes st ivfs sch) = map (\<lambda>p. tile_levels (fst p) (snd p)) ivfs"
  using assms
proof (induction ivfs arbitrary: sch)
  case Nil
  show ?case by simp
next
  case (Cons ivf rest)
  then have l: "length (snd ivf) = 3" by simp
  from Cons have "\<And>sch. fst (split_axes st rest sch) = map (\<lambda>p. tile_levels (fst p) (snd p)) rest"
    by simp
  then show ?case
    by (simp add: split_by_factors_3 [OF l] split: prod.splits) (metis fst_conv)
qed

lemma zip_star_3:
  assumes "parts \<noteq> []" and "\<forall>p \<in> set parts. length p = 3"
  shows "zip_star parts = [map (\<lambda>p. p ! 0) parts, map (\<lambda>p. p ! 1) parts, map (\<lambda>p. p ! 2) parts]"
proof -
  from assms have "set (map length parts) = {3}" by (cases parts) auto
  then have "Min (set (map length parts)) = 3" by simp
  moreover have "[0 ..< 3] = [0, 1, 2]" by (simp add: upt_rec)
  ultimately show ?thesis using assms(1) by (simp add: zip_star_def)
qed

lemma slices_4:
  "slice_to [a, b, c, d] (- 2) = [a, b]"
  "slice [a, b, c, d] (- 2) (- 1) = [c]"
  "slice_from [a, b, c, d] (- 1) = [d]"
  by (simp_all add: slice_to_def slice_def slice_from_def slice_bound_def)

lemma slices_reserved:
  assumes "0 < n" and "n \<le> length xs"
  shows "slice_to xs (- int n) = take (length xs - n) xs"
    and "slice_from xs (- int n) = drop (length xs - n) xs"
  using assms by (simp_all add: slice_to_def slice_from_def slice_bound_def nat_diff_distrib')


lemma zip_map_take:
  "zip xs (map g (take (length xs) ys)) = map (\<lambda>p. (fst p, g (snd p))) (zip xs ys)"
proof (induction xs arbitrary: ys)
  case Nil
  show ?case by simp
next
  case (Cons x xs)
  then show ?case by (cases ys) simp_all
qed

lemma nth_after_prefix:
  assumes "0 < n" and "n \<le> length xs"
  shows "(a @ b @ c @ d @ drop (length xs - n) xs @ r) ! (length a + length b + length c + length d)
           = xs ! (length xs - n)"
  using assms by (simp add: nth_append)

lemma py_index_from_end:
  assumes "0 < k" and "k \<le> length xs"
  shows "py_index xs (- int k) = Inr (xs ! (length xs - k))"
  using assms by (simp add: py_index_def nat_diff_distrib' of_nat_diff)

text \<open>
  C7, amended. In \<open>tiling\<close> applied to the main operation, with at least one
  reduce axis to split, each split 3-way, \<open>n > 0\<close> reserved spatial axes and
  the output operation already tiled: the loop axes are reordered to the outer
  two reduce tile levels, the outer spatial block, the third reduce tile
  level, the reserved spatial axes, the reserved reduce axes, in this order;
  the state records these reduce levels; and the recorded tensorize axis is
  the outermost reserved spatial axis \<open>axis[-n]\<close>, the first axis of the
  reserved block, not the axis before it.
\<close>

theorem tiling_main_order:
  assumes m: "op = main_op self"
    and n: "reserve_inner_axis_count (recipe_stage self) op = Some n"
    and n0: "0 < n" and n1: "n \<le> length (axis (X op))"
    and pos: "get_output_op_third_innermost_last_axis self = Inr pos"
    and sr: "sr = split_reduce_axis_of (recipe_stage self) (reduce_axis (X op))"
    and rr: "rr = reserve_reduce_axis_of (recipe_stage self) (reduce_axis (X op))"
    and s: "sr \<noteq> []"
    and f: "length sr \<le> length (reduce_factors (params self))"
    and t: "\<forall>c \<in> set (take (length sr) (reduce_factors (params self))). length (fst c) = 3"
  shows "\<exists>self' sch'. tiling self op_id op sch X = Inr (self', sch')
     \<and> last sch' = Reorder (OpStage (X op))
          (tile_level 0 sr (reduce_factors (params self))
           @ tile_level 1 sr (reduce_factors (params self))
           @ take (length (axis (X op)) - n) (axis (X op))
           @ tile_level 2 sr (reduce_factors (params self))
           @ drop (length (axis (X op)) - n) (axis (X op))
           @ rr)
     \<and> main_op_reduce_axis (state self')
          = [tile_level 0 sr (reduce_factors (params self)),
             tile_level 1 sr (reduce_factors (params self)),
             tile_level 2 sr (reduce_factors (params self)), rr]
     \<and> tensorize_iter (state self') op = Some (axis (X op) ! (length (axis (X op)) - n))"
proof -
  let ?ax = "axis (X op)"
  let ?rf = "reduce_factors (params self)"
  let ?st = "OpStage (X op)"
  let ?sch1 = "sch @ [ComputeAt ?st (OpStage (X (output_op self))) pos]"
  let ?fs = "map fst (take (length sr) ?rf)"
  let ?L = "\<lambda>k. tile_level k sr ?rf"
  have fac: "get_main_op_reduce_axis_factors self (length sr) = Inr ?fs"
    using f by (simp add: get_main_op_reduce_axis_factors_def)
  obtain parts sch2 where sp: "split_axes ?st (zip sr ?fs) ?sch1 = (parts, sch2)"
    by (cases "split_axes ?st (zip sr ?fs) ?sch1") auto
  have l3: "\<forall>p \<in> set (zip sr ?fs). length (snd p) = 3"
    using t by (auto dest!: set_zip_rightD)
  have parts: "parts = map (\<lambda>p. tile_levels (fst p) (snd p)) (zip sr ?fs)"
    using split_axes_3 [OF l3, of ?st ?sch1] sp by simp
  have len: "length (zip sr ?fs) = length sr"
    using f by simp
  then have "length parts = length sr"
    by (simp only: parts length_map)
  with s have ne: "parts \<noteq> []"
    by auto
  have p3: "\<forall>p \<in> set parts. length p = 3"
    by (auto simp: parts tile_levels_def)
  have z: "zip sr ?fs = map (\<lambda>p. (fst p, fst (snd p))) (zip sr ?rf)"
    by (rule zip_map_take)
  have lev: "map (\<lambda>p. p ! k) parts = ?L k" for k
    by (simp add: parts z tile_level_def comp_def)
  have zs: "zip_star parts = [?L 0, ?L 1, ?L 2]"
    using zip_star_3 [OF ne p3] by (simp add: lev)
  let ?ordered = "?L 0 @ ?L 1 @ take (length ?ax - n) ?ax @ ?L 2 @ drop (length ?ax - n) ?ax @ rr"
  have k: "0 < n + length rr" "n + length rr \<le> length ?ordered"
    using n0 n1 by simp_all
  have "py_index ?ordered (- int (n + length rr)) = Inr (?ordered ! (length ?ordered - (n + length rr)))"
    using k by (rule py_index_from_end)
  moreover have "length ?ordered - (n + length rr)
      = length (?L 0 @ ?L 1 @ take (length ?ax - n) ?ax @ ?L 2)"
    using n1 by simp
  moreover have "?ordered ! length (?L 0 @ ?L 1 @ take (length ?ax - n) ?ax @ ?L 2)
      = ?ax ! (length ?ax - n)"
    using nth_after_prefix [OF n0 n1, of "?L 0" "?L 1" "take (length ?ax - n) ?ax" "?L 2" rr]
    by (simp only: length_append add.assoc)
  ultimately have ti: "py_index ?ordered (- (int n + int (length rr))) = Inr (?ax ! (length ?ax - n))"
    by simp
  show ?thesis
    using n n0 n1 pos fac sp zs ti
    by (simp add: tiling_def m [symmetric] tiling_main_op_def lookup_def Let_def
        sr [symmetric] rr [symmetric] slices_4 slices_reserved)
qed

lemma tiled_output_pos:
  "get_output_op_third_innermost_last_axis tiled_output_applier
     = Inr (Fused [SplitInner (SplitOuter (IterVar ''s0'') 8) 4,
                   SplitInner (SplitOuter (IterVar ''s1'') 8) 2])"
  by (simp add: get_output_op_third_innermost_last_axis_def tiled_output_applier_def
      example_applier_def CUDAScheduleApplier_init_def empty_state_def py_index_def
      tile_level_def tile_levels_def example_record_def)

lemma mma_reduce_partition:
  "split_reduce_axis_of (recipe_stage tiled_output_applier) (reduce_axis (id mma_op)) = [IterVar ''k'']"
  "reserve_reduce_axis_of (recipe_stage tiled_output_applier) (reduce_axis (id mma_op)) = [IterVar ''kk'']"
  by (simp_all add: split_reduce_axis_of_def reserve_reduce_axis_of_def tiled_output_applier_def
      example_applier_def CUDAScheduleApplier_init_def example_recipe_stage_def mma_op_def
      enumerate_eq_zip upt_rec)

text \<open>
  C7, as stated, fails in its last part: on the example the reordered axes are
  \<open>k.o.o, k.o.i, i, j, k.i, ii, jj, kk\<close>; the axis just outside the reserved
  axes \<open>ii, jj, kk\<close> is \<open>k.i\<close>, and the axis recorded for tensorize is \<open>ii\<close>.
\<close>

theorem tiling_main_counterexample:
  "map_sum id (\<lambda>r. (last (snd r), tensorize_iter (state (fst r)) mma_op))
       (tiling tiled_output_applier 5 mma_op [] id)
     = Inr (Reorder (OpStage mma_op)
              [SplitOuter (SplitOuter (IterVar ''k'') 4) 4,
               SplitInner (SplitOuter (IterVar ''k'') 4) 4,
               IterVar ''i'', IterVar ''j'',
               SplitInner (IterVar ''k'') 4,
               IterVar ''ii'', IterVar ''jj'',
               IterVar ''kk''],
            Some (IterVar ''ii''))"
  by code_simp


theorem tiling_main_order_witness:
  "\<exists>self' sch'. tiling tiled_output_applier 5 mma_op [] id = Inr (self', sch')
     \<and> last sch' = Reorder (OpStage mma_op)
          [SplitOuter (SplitOuter (IterVar ''k'') 4) 4,
           SplitInner (SplitOuter (IterVar ''k'') 4) 4,
           IterVar ''i'', IterVar ''j'',
           SplitInner (IterVar ''k'') 4,
           IterVar ''ii'', IterVar ''jj'',
           IterVar ''kk'']
     \<and> main_op_reduce_axis (state self')
          = [[SplitOuter (SplitOuter (IterVar ''k'') 4) 4],
             [SplitInner (SplitOuter (IterVar ''k'') 4) 4],
             [SplitInner (IterVar ''k'') 4],
             [IterVar ''kk'']]
     \<and> tensorize_iter (state self') mma_op = Some (IterVar ''ii'')"
proof -
  have m: "mma_op = main_op tiled_output_applier"
    by (simp add: tiled_output_applier_def example_applier_def CUDAScheduleApplier_init_def)
  have n: "reserve_inner_axis_count (recipe_stage tiled_output_applier) mma_op = Some 2"
    by (simp add: tiled_output_applier_def example_applier_def CUDAScheduleApplier_init_def
        example_recipe_stage_def mma_op_def load_a_op_def load_b_op_def store_op_def)
  have n0: "0 < (2::nat)" by simp
  have ax: "axis mma_op = [IterVar ''i'', IterVar ''j'', IterVar ''ii'', IterVar ''jj'']"
    by (simp add: mma_op_def)
  have n1: "2 \<le> length (axis (id mma_op))"
    by (simp add: ax)
  have rf: "reduce_factors (params tiled_output_applier) = [([4, 4, 4], [0, 0])]"
    by (simp add: tiled_output_applier_def example_record_def)
  have s: "[IterVar ''k''] \<noteq> []" by simp
  have f: "length [IterVar ''k''] \<le> length (reduce_factors (params tiled_output_applier))"
    by (simp add: rf)
  have t: "\<forall>c \<in> set (take (length [IterVar ''k'']) (reduce_factors (params tiled_output_applier))).
             length (fst c) = 3"
    by (simp add: rf)
  from tiling_main_order [where X = id and op_id = 5 and sch = "[]", OF m n n0 n1
      tiled_output_pos mma_reduce_partition(1) [symmetric]
      mma_reduce_partition(2) [symmetric] s f t]
  show ?thesis
    by (simp add: rf ax tile_level_def tile_levels_def)
qed

section \<open>apply resets the state\<close>

lemma state_update_self: "self = self\<lparr>state := state self\<rparr>"
  by simp

lemma inline_frame:
  "inline self op_id op sch X = Inr (self', sch') \<Longrightarrow> \<exists>s. self' = self\<lparr>state := s\<rparr>"
  by (auto simp: inline_def intro: state_update_self split: if_splits)

lemma cache_read_frame:
  "cache_read self op_id op sch X = Inr (self', sch') \<Longrightarrow> \<exists>s. self' = self\<lparr>state := s\<rparr>"
  by (auto simp: cache_read_def Let_def and_then_eq_Inr intro: state_update_self
      split: if_splits option.splits)

lemma set_scope_frame:
  "set_scope self op_id op sch X = Inr (self', sch') \<Longrightarrow> \<exists>s. self' = self\<lparr>state := s\<rparr>"
  by (auto simp: set_scope_def intro: state_update_self split: if_splits option.splits)

lemma tiling_main_op_frame:
  "tiling_main_op self op_id op sch X = Inr (self', sch') \<Longrightarrow> \<exists>s. self' = self\<lparr>state := s\<rparr>"
  by (auto simp: tiling_main_op_def Let_def and_then_eq_Inr case_prod_beta split: if_splits)

lemma tiling_output_op_frame:
  "tiling_output_op self op_id op sch X = Inr (self', sch') \<Longrightarrow> \<exists>s. self' = self\<lparr>state := s\<rparr>"
  by (auto simp: tiling_output_op_def Let_def and_then_eq_Inr case_prod_beta split: if_splits)

lemma tiling_last_op_frame:
  "tiling_last_op self op_id op sch X = Inr (self', sch') \<Longrightarrow> \<exists>s. self' = self\<lparr>state := s\<rparr>"
  by (auto simp: tiling_last_op_def Let_def and_then_eq_Inr case_prod_beta split: if_splits)

lemma tiling_frame:
  "tiling self op_id op sch X = Inr (self', sch') \<Longrightarrow> \<exists>s. self' = self\<lparr>state := s\<rparr>"
  by (auto simp: tiling_def and_then_eq_Inr intro: state_update_self
      dest: tiling_main_op_frame tiling_output_op_frame tiling_last_op_frame split: if_splits)

lemma compute_at_frame:
  "compute_at self op_id op sch X = Inr (self', sch') \<Longrightarrow> \<exists>s. self' = self\<lparr>state := s\<rparr>"
  by (auto simp: compute_at_def set_tensorize_iter_def and_then_eq_Inr intro: state_update_self
      split: if_splits)

lemma unroll_frame:
  "unroll self op_id op sch X = Inr (self', sch') \<Longrightarrow> \<exists>s. self' = self\<lparr>state := s\<rparr>"
  by (auto simp: unroll_def and_then_eq_Inr intro: state_update_self split: if_splits)

lemma tensorize_frame:
  "tensorize self op_id op sch X = Inr (self', sch') \<Longrightarrow> \<exists>s. self' = self\<lparr>state := s\<rparr>"
  by (auto simp: tensorize_def Let_def and_then_eq_Inr intro: state_update_self split: if_splits)


lemma run_primitives_frame:
  assumes fr: "\<forall>prim \<in> set prims. \<forall>self op_id op sch X self' sch'.
      prim self op_id op sch X = Inr (self', sch') \<longrightarrow> (\<exists>s. self' = self\<lparr>state := s\<rparr>)"
    and "run_primitives prims self op_id op sch X = Inr (self', sch')"
  shows "\<exists>s. self' = self\<lparr>state := s\<rparr>"
  using assms
proof (induction prims arbitrary: self sch)
  case Nil
  then show ?case by (auto intro: state_update_self)
next
  case (Cons prim prims)
  from Cons.prems(2) obtain self1 sch1 where
    p: "prim self op_id op sch X = Inr (self1, sch1)"
    and r: "run_primitives prims self1 op_id op sch1 X = Inr (self', sch')"
    by (auto simp: and_then_eq_Inr)
  have "prim \<in> set (prim # prims)" by simp
  from Cons.prems(1) [rule_format, of prim self op_id op sch X self1 sch1, OF this p]
  obtain s1 where s1: "self1 = self\<lparr>state := s1\<rparr>"
    by auto
  from Cons.prems(1) have "\<forall>prim \<in> set prims. \<forall>self op_id op sch X self' sch'.
      prim self op_id op sch X = Inr (self', sch') \<longrightarrow> (\<exists>s. self' = self\<lparr>state := s\<rparr>)"
    by simp
  from Cons.IH [OF this r] obtain s where "self' = self1\<lparr>state := s\<rparr>"
    by auto
  with s1 show ?case by auto
qed

lemma apply_loop_frame:
  assumes fr: "\<forall>prim \<in> set prims. \<forall>self op_id op sch X self' sch'.
      prim self op_id op sch X = Inr (self', sch') \<longrightarrow> (\<exists>s. self' = self\<lparr>state := s\<rparr>)"
    and "apply_loop prims total_op iops self sch X = Inr (self', sch')"
  shows "\<exists>s. self' = self\<lparr>state := s\<rparr>"
  using assms(2)
proof (induction iops arbitrary: self sch)
  case Nil
  then show ?case by (auto intro: state_update_self)
next
  case (Cons iop iops)
  show ?case
  proof (cases "is_ComputeOp (snd iop)")
    case False
    with Cons show ?thesis by simp
  next
    case True
    with Cons.prems obtain self1 sch1 where
      p: "run_primitives prims self (int total_op - int (fst iop) - 1) (snd iop) sch X
            = Inr (self1, sch1)"
      and r: "apply_loop prims total_op iops self1 sch1 X = Inr (self', sch')"
      by (auto simp: and_then_eq_Inr)
    from run_primitives_frame [OF fr p] obtain s1 where s1: "self1 = self\<lparr>state := s1\<rparr>"
      by auto
    from Cons.IH [OF r] obtain s where "self' = self1\<lparr>state := s\<rparr>"
      by auto
    with s1 show ?thesis by auto
  qed
qed

lemma applier_apply_frame:
  assumes "applier_apply self sch ps X = Inr (self', sch')"
  shows "\<exists>s. self' = self\<lparr>params := ps, state := s\<rparr>"
proof -
  let ?prims = "[inline, cache_read, set_scope, tiling, compute_at, unroll, tensorize]"
  have fr: "\<forall>prim \<in> set ?prims. \<forall>self op_id op sch X self' sch'.
      prim self op_id op sch X = Inr (self', sch') \<longrightarrow> (\<exists>s. self' = self\<lparr>state := s\<rparr>)"
  proof (intro ballI allI impI)
    fix prim :: primitive and self op_id op sch X self' sch'
    assume "prim \<in> set ?prims" and r: "prim self op_id op sch X = Inr (self', sch')"
    then consider "prim = inline" | "prim = cache_read" | "prim = set_scope" | "prim = tiling"
      | "prim = compute_at" | "prim = unroll" | "prim = tensorize"
      by auto
    then show "\<exists>s. self' = self\<lparr>state := s\<rparr>"
    proof cases
      case 1 with r show ?thesis by (simp add: inline_frame)
    next
      case 2 with r show ?thesis by (simp add: cache_read_frame)
    next
      case 3 with r show ?thesis by (simp add: set_scope_frame)
    next
      case 4 with r show ?thesis by (simp add: tiling_frame)
    next
      case 5 with r show ?thesis by (simp add: compute_at_frame)
    next
      case 6 with r show ?thesis by (simp add: unroll_frame)
    next
      case 7 with r show ?thesis by (simp add: tensorize_frame)
    qed
  qed
  from assms have "apply_loop ?prims (length (op_lst (target_dag self)))
      (List.enumerate 0 (rev (op_lst (target_dag self))))
      (self\<lparr>params := ps, state := empty_state\<rparr>) sch X = Inr (self', sch')"
    by (simp add: applier_apply_def Let_def initialize_state_def initialize_parameters_def)
  from apply_loop_frame [OF fr this] show ?thesis
    by auto
qed

lemma applier_apply_reset:
  "applier_apply (self\<lparr>state := s, params := p\<rparr>) sch ps X = applier_apply self sch ps X"
  by (simp add: applier_apply_def Let_def initialize_state_def initialize_parameters_def)

text \<open>
  C4. \<open>apply\<close> is a function of the applier's fixed fields (graph, recipe
  stage, operations, keys), the schedule it is given, the parameters and the
  mapping: the state and the parameters that an earlier call left in the
  applier do not change its result, because the call stores the parameters
  and resets the state first. So a second call on the applier a first call
  left behind, on the same input schedule with the same parameters, returns
  the same schedule.
\<close>

theorem apply_deterministic:
  "applier_apply (self\<lparr>state := s, params := p\<rparr>) sch ps X = applier_apply self sch ps X
   \<and> (applier_apply self sch ps X = Inr (self', sch') \<longrightarrow>
        applier_apply self' sch ps X = Inr (self', sch'))"
proof (intro conjI impI)
  show "applier_apply (self\<lparr>state := s, params := p\<rparr>) sch ps X = applier_apply self sch ps X"
    by (rule applier_apply_reset)
next
  assume a: "applier_apply self sch ps X = Inr (self', sch')"
  then obtain s' where "self' = self\<lparr>params := ps, state := s'\<rparr>"
    using applier_apply_frame by blast
  then have "applier_apply self' sch ps X = applier_apply self sch ps X"
    by (simp add: applier_apply_def Let_def initialize_state_def initialize_parameters_def)
  with a show "applier_apply self' sch ps X = Inr (self', sch')"
    by simp
qed

lemma example_apply:
  "map_sum id snd (applier_apply example_applier [] example_record id) = Inr example_schedule"
  by code_simp

theorem apply_deterministic_witness:
  "\<exists>self'. applier_apply example_applier [] example_record id = Inr (self', example_schedule)
     \<and> applier_apply self' [] example_record id = Inr (self', example_schedule)"
proof -
  from example_apply obtain self' where
    a: "applier_apply example_applier [] example_record id = Inr (self', example_schedule)"
    by (cases "applier_apply example_applier [] example_record id") auto
  with apply_deterministic [where self = example_applier and sch = "[]" and ps = example_record
      and X = id and self' = self' and sch' = example_schedule]
  show ?thesis by blast
qed

end
